theory Spec2Isabelle
  imports Complex_Main
begin

section \<open>The Python runtime under the service\<close>

text \<open>
  The service is Python on NumPy. Floats are modelled as exact reals. Rounding is outside
  the model, and so is an overflow that yields an infinity; an overflow that raises is
  modelled. A comparison of two floats is decided on the exact values: where the two
  sides are within rounding distance of each other the doubles of the code may decide
  otherwise, and the properties of such comparisons are stated away from the threshold.
  What the interpreter and NumPy supply from outside the repository is collected in one
  record, passed to every function that needs it:
  \<^item> \<open>py_hash\<close>: the built-in \<open>hash\<close> on strings, which CPython keys per process;
  \<^item> \<open>rng_seed\<close>, \<open>rng_gauss\<close>: NumPy's global generator, as \<open>np.random.seed\<close> and one
    standard normal draw from a generator state of type \<open>'g\<close>;
  \<^item> \<open>fmt1\<close>, \<open>fmt_int\<close>: the format specifications \<open>:.1f\<close> and plain \<open>{}\<close> of f-strings.
  The generator state is threaded explicitly: a computation takes the state and returns
  its result, or the exception it raised, together with the state it leaves behind.
\<close>

datatype py_error =
  ValueError string | ZeroDivisionError | OverflowError | IndexError | ValidationError

text \<open>The largest finite double.\<close>

definition float_max :: real where
  "float_max = (2 - 1 / 2 ^ 52) * 2 ^ 1023"

record 'g runtime =
  py_hash :: "string \<Rightarrow> int"
  rng_seed :: "nat \<Rightarrow> 'g"
  rng_gauss :: "'g \<Rightarrow> real \<times> 'g"
  fmt1 :: "real \<Rightarrow> string"
  fmt_int :: "nat \<Rightarrow> string"

text \<open>\<open>np.random.normal(loc, scale, size)\<close>: \<open>size\<close> draws, each \<open>loc + scale * z\<close>.\<close>

fun normal :: "'g runtime \<Rightarrow> real \<Rightarrow> real \<Rightarrow> nat \<Rightarrow> 'g \<Rightarrow> real list \<times> 'g" where
  "normal R loc scale 0 g = ([], g)"
| "normal R loc scale (Suc n) g =
     (case rng_gauss R g of (z, g1) \<Rightarrow>
        (case normal R loc scale n g1 of (zs, g2) \<Rightarrow> ((loc + scale * z) # zs, g2)))"

text \<open>
  \<open>np.linspace(start, stop, num)\<close> with the end point included: \<open>num\<close> samples
  \<open>start + i * step\<close>, \<open>step = (stop - start) / (num - 1)\<close>; a single sample is \<open>start\<close>.
\<close>

definition linspace :: "real \<Rightarrow> real \<Rightarrow> nat \<Rightarrow> real list" where
  "linspace start stop num =
     (if num = 1 then [start]
      else map (\<lambda>i. start + real i * ((stop - start) / real (num - 1))) [0..<num])"

text \<open>The float remainder \<open>t % p\<close>: \<open>t - p * floor (t / p)\<close>, with the sign of \<open>p\<close>.\<close>

definition py_fmod :: "real \<Rightarrow> real \<Rightarrow> real" where
  "py_fmod t p = t - p * of_int \<lfloor>t / p\<rfloor>"

section \<open>The light-curve generator (services/data\_generator.py)\<close>

record transit_region =
  start_index :: int
  end_index :: int
  depth :: real

type_synonym light_curve = "real list \<times> real list \<times> transit_region list"

text \<open>
  \<open>calculate_realistic_depth\<close>: the squared radius ratio. The division raises on a zero
  star radius, and the power \<open>** 2\<close> raises OverflowError when the square of its finite
  operand is beyond the largest double. A planet radius whose product with 6371 is
  itself beyond the double range makes the product, the ratio and the depth infinite in
  the code, without an exception; the model then keeps the exact square, a real above
  \<open>float_max\<close>.
\<close>

definition calculate_realistic_depth :: "real \<Rightarrow> real \<Rightarrow> py_error + real" where
  "calculate_realistic_depth planet_radius_earth star_radius_solar =
     (let R_earth = 6371; R_sun = 696000;
          R_planet = planet_radius_earth * R_earth;
          R_star = star_radius_solar * R_sun
      in if R_star = 0 then Inl ZeroDivisionError
         else if \<bar>R_planet\<bar> \<le> float_max \<and> float_max < (R_planet / R_star)\<^sup>2
         then Inl OverflowError
         else Inr ((R_planet / R_star)\<^sup>2))"

text \<open>Lines 47-54 of \<open>generate_confirmed_planet\<close>: the depth the transits are drawn with.\<close>

definition effective_depth :: "real \<Rightarrow> real option \<Rightarrow> py_error + real" where
  "effective_depth transit_depth planet_radius_earth =
     (case planet_radius_earth of
        None \<Rightarrow> Inr transit_depth
      | Some r \<Rightarrow>
          (case calculate_realistic_depth r 1.0 of
             Inl e \<Rightarrow> Inl e
           | Inr d \<Rightarrow> Inr (if d < 0.0005 then d * 100 else d)))"

text \<open>
  The loop body, lines 69-94. The phase test and the dip of one sample; the test is
  decided on the exact phase of the exact sample time.
\<close>

definition transit_phase :: "real \<Rightarrow> real \<Rightarrow> real" where
  "transit_phase period_days t = py_fmod t period_days / period_days"

definition in_transit :: "real \<Rightarrow> real \<Rightarrow> real \<Rightarrow> bool" where
  "in_transit period_days transit_width t =
     (let phase = transit_phase period_days t;
          phase_start = 0.5 - transit_width / 2;
          phase_end = 0.5 + transit_width / 2
      in phase_start < phase \<and> phase < phase_end)"

definition relative_phase :: "real \<Rightarrow> real \<Rightarrow> real \<Rightarrow> real" where
  "relative_phase period_days transit_width t =
     (transit_phase period_days t - 0.5) / (transit_width / 2)"

definition depth_factor :: "real \<Rightarrow> real \<Rightarrow> real \<Rightarrow> real \<Rightarrow> real" where
  "depth_factor period_days transit_depth transit_width t =
     (let rp = relative_phase period_days transit_width t;
          limb_factor = 1.0 - 0.1 * (1 - rp\<^sup>2)
      in transit_depth * limb_factor * (1 - \<bar>rp\<bar> * 0.2))"

text \<open>Lines 83-94: open a region, or extend the last one.\<close>

definition record_region :: "transit_region list \<Rightarrow> nat \<Rightarrow> real \<Rightarrow> transit_region list" where
  "record_region transit_regions i df =
     (if transit_regions = [] \<or> end_index (last transit_regions) < int i - 10
      then transit_regions @ [\<lparr>start_index = int i, end_index = int i, depth = df\<rparr>]
      else butlast transit_regions @
           [(last transit_regions)\<lparr>end_index := int i,
                                   depth := max (depth (last transit_regions)) df\<rparr>])"

definition transit_step ::
  "real \<Rightarrow> real \<Rightarrow> real \<Rightarrow> nat \<times> real \<Rightarrow> real list \<times> transit_region list
     \<Rightarrow> real list \<times> transit_region list" where
  "transit_step period_days transit_depth transit_width it s =
     (case it of (i, t) \<Rightarrow> (case s of (flux, transit_regions) \<Rightarrow>
        if in_transit period_days transit_width t
        then (let df = depth_factor period_days transit_depth transit_width t
              in (flux[i := flux ! i - df], record_region transit_regions i df))
        else (flux, transit_regions)))"

definition transit_loop ::
  "real \<Rightarrow> real \<Rightarrow> real \<Rightarrow> real list \<Rightarrow> real list \<Rightarrow> real list \<times> transit_region list" where
  "transit_loop period_days transit_depth transit_width time flux =
     fold (transit_step period_days transit_depth transit_width) (enumerate 0 time) (flux, [])"

definition generate_confirmed_planet ::
  "'g runtime \<Rightarrow> real \<Rightarrow> real \<Rightarrow> real \<Rightarrow> int \<Rightarrow> real option \<Rightarrow> 'g
     \<Rightarrow> (py_error + light_curve) \<times> 'g" where
  "generate_confirmed_planet R period_days transit_depth transit_duration num_points
       planet_radius_earth g =
     (case effective_depth transit_depth planet_radius_earth of
        Inl e \<Rightarrow> (Inl e, g)
      | Inr d \<Rightarrow>
          if num_points < 0
          then (Inl (ValueError ''Number of samples must be non-negative''), g)
          else
            (let n = nat num_points; time = linspace 0 30 n in
             case normal R 0 0.0005 n g of (noise, g') \<Rightarrow>
               (let flux = map2 (+) (replicate n 1) noise in
                if period_days * 24 = 0 then (Inl ZeroDivisionError, g')
                else
                  (let transit_width = min 0.04 (transit_duration / (period_days * 24))
                   in case transit_loop period_days d transit_width time flux of
                        (flux', transit_regions) \<Rightarrow>
                          (Inr (time, flux', transit_regions), g')))))"

text \<open>\<open>generate_false_positive\<close>: one triangular eclipse (lines 118-119), then the three shapes.\<close>

definition eclipse_dip :: "real list \<Rightarrow> real \<Rightarrow> real list \<Rightarrow> real list" where
  "eclipse_dip time t_center flux =
     map2 (\<lambda>t f. if \<bar>t - t_center\<bar> < 0.5
                   then f - 0.05 * (1 - \<bar>t - t_center\<bar> / 0.5) else f) time flux"

definition generate_false_positive ::
  "'g runtime \<Rightarrow> int \<Rightarrow> string \<Rightarrow> 'g \<Rightarrow> (py_error + light_curve) \<times> 'g" where
  "generate_false_positive R num_points anomaly_type g =
     (if num_points < 0
      then (Inl (ValueError ''Number of samples must be non-negative''), g)
      else
        (let n = nat num_points; time = linspace 0 30 n; flux = replicate n 1 in
         if anomaly_type = ''eclipsing_binary'' then
           (case normal R 0 0.001 n g of (noise, g') \<Rightarrow>
              (Inr (time, fold (eclipse_dip time) [7, 14, 21] (map2 (+) flux noise), []), g'))
         else if anomaly_type = ''stellar_variability'' then
           (let flux1 = map2 (+) flux (map (\<lambda>t. 0.02 * sin (2 * pi * t / 10)) time)
            in case normal R 0 0.003 n g of (noise, g') \<Rightarrow>
                 (Inr (time, map2 (+) flux1 noise, []), g'))
         else
           (case normal R 0 0.005 n g of (noise, g') \<Rightarrow>
              (Inr (time, map2 (+) flux noise, []), g'))))"

text \<open>\<open>generate_candidate\<close>: a shallow dip of fixed period; no region is recorded.\<close>

definition candidate_step :: "nat \<times> real \<Rightarrow> real list \<Rightarrow> real list" where
  "candidate_step it flux =
     (case it of (i, t) \<Rightarrow>
        (let period_days = 5.2; transit_depth = 0.005;
             phase = py_fmod t period_days / period_days
         in if 0.48 < phase \<and> phase < 0.52 then flux[i := flux ! i - transit_depth]
            else flux))"

definition generate_candidate ::
  "'g runtime \<Rightarrow> int \<Rightarrow> 'g \<Rightarrow> (py_error + light_curve) \<times> 'g" where
  "generate_candidate R num_points g =
     (if num_points < 0
      then (Inl (ValueError ''Number of samples must be non-negative''), g)
      else
        (let n = nat num_points; time = linspace 0 30 n in
         case normal R 0 0.003 n g of (noise, g') \<Rightarrow>
           (let flux = map2 (+) (replicate n 1) noise
            in (Inr (time, fold candidate_step (enumerate 0 time) flux, []), g'))))"

section \<open>NumPy floats that may be infinite or NaN\<close>

text \<open>
  The inputs of the explanation engine are finite floats, modelled as reals. Inside it
  a division by zero can produce an infinity or a NaN, which NumPy propagates instead
  of raising; the importance array is therefore modelled over \<open>npfloat\<close>. Arithmetic on
  finite values is exact, a zero counts as the positive zero.
\<close>

datatype npfloat = Fin real | PInf | NInf | NaN

fun np_neg :: "npfloat \<Rightarrow> npfloat" where
  "np_neg (Fin x) = Fin (- x)"
| "np_neg PInf = NInf"
| "np_neg NInf = PInf"
| "np_neg NaN = NaN"

fun np_add :: "npfloat \<Rightarrow> npfloat \<Rightarrow> npfloat" where
  "np_add NaN b = NaN"
| "np_add a NaN = NaN"
| "np_add (Fin x) (Fin y) = Fin (x + y)"
| "np_add PInf NInf = NaN"
| "np_add NInf PInf = NaN"
| "np_add PInf b = PInf"
| "np_add a PInf = PInf"
| "np_add NInf b = NInf"
| "np_add a NInf = NInf"

definition np_sub :: "npfloat \<Rightarrow> npfloat \<Rightarrow> npfloat" where
  "np_sub a b = np_add a (np_neg b)"

fun np_mul :: "npfloat \<Rightarrow> npfloat \<Rightarrow> npfloat" where
  "np_mul NaN b = NaN"
| "np_mul a NaN = NaN"
| "np_mul (Fin x) (Fin y) = Fin (x * y)"
| "np_mul (Fin x) PInf = (if x = 0 then NaN else if 0 < x then PInf else NInf)"
| "np_mul (Fin x) NInf = (if x = 0 then NaN else if 0 < x then NInf else PInf)"
| "np_mul PInf (Fin y) = (if y = 0 then NaN else if 0 < y then PInf else NInf)"
| "np_mul NInf (Fin y) = (if y = 0 then NaN else if 0 < y then NInf else PInf)"
| "np_mul PInf PInf = PInf"
| "np_mul PInf NInf = NInf"
| "np_mul NInf PInf = NInf"
| "np_mul NInf NInf = PInf"

fun np_div :: "npfloat \<Rightarrow> npfloat \<Rightarrow> npfloat" where
  "np_div NaN b = NaN"
| "np_div a NaN = NaN"
| "np_div (Fin x) (Fin y) =
     (if y = 0 then (if x = 0 then NaN else if 0 < x then PInf else NInf) else Fin (x / y))"
| "np_div (Fin x) b = Fin 0"
| "np_div PInf (Fin y) = (if 0 \<le> y then PInf else NInf)"
| "np_div NInf (Fin y) = (if 0 \<le> y then NInf else PInf)"
| "np_div a b = NaN"

fun np_abs :: "npfloat \<Rightarrow> npfloat" where
  "np_abs (Fin x) = Fin \<bar>x\<bar>"
| "np_abs PInf = PInf"
| "np_abs NInf = PInf"
| "np_abs NaN = NaN"

fun np_exp :: "npfloat \<Rightarrow> npfloat" where
  "np_exp (Fin x) = Fin (exp x)"
| "np_exp PInf = PInf"
| "np_exp NInf = Fin 0"
| "np_exp NaN = NaN"

text \<open>\<open>a > b\<close>: false as soon as one side is NaN.\<close>

fun np_gt :: "npfloat \<Rightarrow> npfloat \<Rightarrow> bool" where
  "np_gt NaN b = False"
| "np_gt a NaN = False"
| "np_gt (Fin x) (Fin y) = (y < x)"
| "np_gt PInf PInf = False"
| "np_gt PInf b = True"
| "np_gt NInf b = False"
| "np_gt (Fin x) PInf = False"
| "np_gt (Fin x) NInf = True"

text \<open>\<open>np.clip(a, lo, hi)\<close>, \<open>np.max\<close> of an array (a NaN entry makes the maximum NaN), \<open>np.mean\<close> and \<open>np.nan_to_num\<close>.\<close>

fun np_clip :: "real \<Rightarrow> real \<Rightarrow> npfloat \<Rightarrow> npfloat" where
  "np_clip lo hi (Fin x) = Fin (min (max x lo) hi)"
| "np_clip lo hi PInf = Fin hi"
| "np_clip lo hi NInf = Fin lo"
| "np_clip lo hi NaN = NaN"

definition np_maximum :: "npfloat \<Rightarrow> npfloat \<Rightarrow> npfloat" where
  "np_maximum a b = (if a = NaN \<or> b = NaN then NaN else if np_gt b a then b else a)"

definition np_amax :: "npfloat list \<Rightarrow> npfloat" where
  "np_amax xs = fold np_maximum (tl xs) (hd xs)"

definition np_mean :: "npfloat list \<Rightarrow> npfloat" where
  "np_mean xs = np_div (fold (\<lambda>x acc. np_add acc x) xs (Fin 0)) (Fin (real (length xs)))"

fun nan_to_num :: "real \<Rightarrow> real \<Rightarrow> real \<Rightarrow> npfloat \<Rightarrow> real" where
  "nan_to_num nan posinf neginf (Fin x) = x"
| "nan_to_num nan posinf neginf PInf = posinf"
| "nan_to_num nan posinf neginf NInf = neginf"
| "nan_to_num nan posinf neginf NaN = nan"

section \<open>NumPy and SciPy array functions on finite data\<close>

text \<open>\<open>np.max\<close> and \<open>np.mean\<close> of a non-empty array of finite values.\<close>

definition amax :: "real list \<Rightarrow> real" where
  "amax xs = fold max (tl xs) (hd xs)"

definition mean :: "real list \<Rightarrow> real" where
  "mean xs = sum_list xs / real (length xs)"

text \<open>\<open>np.median\<close> and \<open>np.percentile\<close> (linear interpolation) of a non-empty array.\<close>

definition median :: "real list \<Rightarrow> real" where
  "median xs =
     (let s = sort xs; n = length xs
      in if odd n then s ! (n div 2) else (s ! (n div 2 - 1) + s ! (n div 2)) / 2)"

definition percentile :: "real list \<Rightarrow> real \<Rightarrow> real" where
  "percentile xs q =
     (let s = sort xs; n = length xs;
          h = real (n - 1) * (q / 100);
          lo = nat \<lfloor>h\<rfloor>; hi = min (lo + 1) (n - 1)
      in s ! lo + (h - real lo) * (s ! hi - s ! lo))"

text \<open>
  \<open>np.convolve(a, v, mode='same')\<close> for non-empty arrays: the full convolution, of which
  the centred \<open>max (len a) (len v)\<close> entries are kept.
\<close>

definition convolve_full :: "real list \<Rightarrow> real list \<Rightarrow> real list" where
  "convolve_full a v =
     map (\<lambda>k. \<Sum>j \<leftarrow> [0..<length a].
                 if j \<le> k \<and> k - j < length v then a ! j * v ! (k - j) else 0)
       [0..<length a + length v - 1]"

definition convolve_same :: "real list \<Rightarrow> real list \<Rightarrow> real list" where
  "convolve_same a v =
     take (max (length a) (length v))
       (drop ((min (length a) (length v) - 1) div 2) (convolve_full a v))"

text \<open>
  \<open>scipy.ndimage.gaussian_filter1d(x, sigma=1.5)\<close>: correlation with the normalised
  Gaussian kernel of radius \<open>int(4 * 1.5 + 0.5) = 6\<close>, the array extended by reflection
  about its edges (mode \<open>reflect\<close>).
\<close>

definition gauss_phi :: "int \<Rightarrow> real" where
  "gauss_phi k = exp (- 0.5 / (1.5 * 1.5) * (real_of_int k)\<^sup>2)"

definition gauss_kernel :: "int \<Rightarrow> real" where
  "gauss_kernel k = gauss_phi k / (\<Sum>j \<leftarrow> [- 6..6]. gauss_phi j)"

definition reflect_index :: "nat \<Rightarrow> int \<Rightarrow> nat" where
  "reflect_index n j =
     (let m = j mod (2 * int n) in nat (if m < int n then m else 2 * int n - 1 - m))"

definition gaussian_filter1d :: "npfloat list \<Rightarrow> npfloat list" where
  "gaussian_filter1d xs =
     map (\<lambda>i. fold (\<lambda>k acc. np_add acc
                       (np_mul (Fin (gauss_kernel k)) (xs ! reflect_index (length xs) (int i + k))))
                 [- 6..6] (Fin 0))
       [0..<length xs]"

text \<open>
  Indexing: a NumPy array accepts a negative index counting from the end, a Python list
  is here only indexed from the front; both raise IndexError out of range.
\<close>

definition np_index :: "real list \<Rightarrow> int \<Rightarrow> py_error + real" where
  "np_index xs i =
     (let m = int (length xs)
      in if 0 \<le> i \<and> i < m then Inr (xs ! nat i)
         else if - m \<le> i \<and> i < 0 then Inr (xs ! nat (m + i))
         else Inl IndexError)"

definition py_index :: "real list \<Rightarrow> nat \<Rightarrow> py_error + real" where
  "py_index xs i = (if i < length xs then Inr (xs ! i) else Inl IndexError)"

text \<open>
  The in-place \<open>a += b\<close> and \<open>a -= b\<close> on arrays: \<open>b\<close> must have the length of \<open>a\<close>, or
  length 1 and is then broadcast; any other shape raises ValueError.
\<close>

definition inplace ::
  "(npfloat \<Rightarrow> npfloat \<Rightarrow> npfloat) \<Rightarrow> npfloat list \<Rightarrow> npfloat list \<Rightarrow> py_error + npfloat list" where
  "inplace f a b =
     (if length b = length a then Inr (map2 f a b)
      else if length b = 1 then Inr (map (\<lambda>x. f x (hd b)) a)
      else Inl (ValueError ''operands could not be broadcast together''))"

section \<open>The explanation engine (services/explainer.py)\<close>

record top_region =
  start_time :: real
  end_time :: real
  importance :: real
  contribution_percent :: real

record shap_explanation =
  shap_feature_importance :: "real list"
  shap_top_contributing_regions :: "top_region list"
  shap_explanation_summary :: string
  shap_base_value :: real
  shap_predicted_value :: real

text \<open>
  Lines 98-112 and 158-166: the Gaussian weights of one transit region. A region read
  from a record has its three keys, so the defaults of \<open>region.get\<close> are never used. A
  region with \<open>start_index = end_index\<close> has width 0: the weight is then \<open>exp(-inf) = 0\<close>
  away from the centre time and \<open>exp(nan) = nan\<close> at the centre time.
\<close>

definition gaussian_weights :: "real list \<Rightarrow> real \<Rightarrow> real \<Rightarrow> npfloat list" where
  "gaussian_weights time_array center_time width =
     map (\<lambda>t. np_exp (np_mul (Fin (- 0.5))
                 (let r = np_div (Fin \<bar>t - center_time\<bar>) (Fin (width * 0.15)) in np_mul r r)))
       time_array"

definition region_weights :: "real list \<Rightarrow> transit_region \<Rightarrow> py_error + npfloat list" where
  "region_weights time_array region =
     (let start_idx = start_index region; end_idx = end_index region;
          center_idx = (start_idx + end_idx) div 2
      in case np_index time_array center_idx of
           Inl e \<Rightarrow> Inl e
         | Inr center_time \<Rightarrow>
             Inr (gaussian_weights time_array center_time (real_of_int (end_idx - start_idx) * 1.5)))"

text \<open>Lines 97-116: the loop over the regions of an exoplanet, \<open>i\<close> counting them.\<close>

fun exoplanet_regions ::
  "real list \<Rightarrow> real \<Rightarrow> nat \<Rightarrow> transit_region list \<Rightarrow> npfloat list \<Rightarrow> py_error + npfloat list" where
  "exoplanet_regions time_array confidence i [] feature_importance = Inr feature_importance"
| "exoplanet_regions time_array confidence i (region # rest) feature_importance =
     (case region_weights time_array region of
        Inl e \<Rightarrow> Inl e
      | Inr gw \<Rightarrow>
          (let importance_scale = min (depth region * 600 * confidence) 0.8 * 0.9 ^ i
           in case inplace np_add feature_importance
                     (map (\<lambda>w. np_mul w (Fin importance_scale)) gw) of
                Inl e \<Rightarrow> Inl e
              | Inr fi \<Rightarrow> exoplanet_regions time_array confidence (Suc i) rest fi))"

text \<open>Lines 157-169: the loop over the regions of a rejected signal.\<close>

fun no_planet_regions ::
  "real list \<Rightarrow> real \<Rightarrow> transit_region list \<Rightarrow> npfloat list \<Rightarrow> py_error + npfloat list" where
  "no_planet_regions time_array confidence [] feature_importance = Inr feature_importance"
| "no_planet_regions time_array confidence (region # rest) feature_importance =
     (case region_weights time_array region of
        Inl e \<Rightarrow> Inl e
      | Inr gw \<Rightarrow>
          (case inplace np_sub feature_importance
                  (map (\<lambda>w. np_mul (np_mul w (Fin 0.2)) (Fin confidence)) gw) of
             Inl e \<Rightarrow> Inl e
           | Inr fi \<Rightarrow> no_planet_regions time_array confidence rest fi))"

text \<open>
  Lines 94-129, the exoplanet branch: the importance array before smoothing, and the
  predicted value. On an empty light curve \<open>np.percentile\<close> raises IndexError.
\<close>

definition exoplanet_importance ::
  "real list \<Rightarrow> real list \<Rightarrow> real \<Rightarrow> transit_region list \<Rightarrow> npfloat list
     \<Rightarrow> py_error + npfloat list \<times> npfloat" where
  "exoplanet_importance flux_array time_array confidence transit_regions feature_importance =
     (case exoplanet_regions time_array confidence 0 transit_regions feature_importance of
        Inl e \<Rightarrow> Inl e
      | Inr fi1 \<Rightarrow>
          if flux_array = [] then Inl IndexError
          else
            (let baseline_stability = map (\<lambda>f. 1.0 - \<bar>f - 1.0\<bar>) flux_array;
                 fi2 = map2 (\<lambda>x b. np_add x (Fin (b * 0.02 * confidence))) fi1 baseline_stability;
                 flux_noise = map (\<lambda>f. \<bar>f - median flux_array\<bar>) flux_array;
                 threshold = percentile flux_noise 80;
                 fi3 = map2 (\<lambda>x fn. if threshold < fn then np_sub x (Fin (0.05 * confidence)) else x)
                         fi2 flux_noise
             in Inr (fi3, np_add (Fin 0.5) (np_mean fi3))))"

text \<open>
  Lines 135-149 of the no-planet branch: the absolute deviation from the mean flux,
  normalised by its maximum (all zero when the maximum is below \<open>1e-10\<close>) and smoothed by
  a moving average of \<open>max(3, n // 50)\<close> samples.
\<close>

definition smoothed_variance :: "real list \<Rightarrow> real list" where
  "smoothed_variance flux_array =
     (let n_points = length flux_array;
          flux_variance = map (\<lambda>f. \<bar>f - mean flux_array\<bar>) flux_array;
          max_var = amax flux_variance;
          normalized_variance =
            (if 1 / 10 ^ 10 < max_var then map (\<lambda>v. v / max_var) flux_variance
             else replicate n_points 0);
          window_size = max 3 (n_points div 50)
      in convolve_same normalized_variance (replicate window_size (1 / real window_size)))"

text \<open>
  Lines 131-179, the no-planet branch. \<open>np.max\<close> raises on an empty light curve; with
  fewer than 3 samples the moving average is longer than the importance array and the
  in-place addition raises.
\<close>

definition no_planet_importance ::
  "real list \<Rightarrow> real list \<Rightarrow> real \<Rightarrow> transit_region list \<Rightarrow> npfloat list
     \<Rightarrow> py_error + npfloat list \<times> npfloat" where
  "no_planet_importance flux_array time_array confidence transit_regions feature_importance =
     (if flux_array = [] then Inl (ValueError ''zero-size array to reduction operation'')
      else
        (case inplace np_add feature_importance
                (map (\<lambda>s. Fin (s * 0.4 * confidence)) (smoothed_variance flux_array)) of
           Inl e \<Rightarrow> Inl e
         | Inr fi1 \<Rightarrow>
             (case no_planet_regions time_array confidence transit_regions fi1 of
                Inl e \<Rightarrow> Inl e
              | Inr fi2 \<Rightarrow>
                  (let stability = map (\<lambda>f. 1.0 - \<bar>f - median flux_array\<bar>) flux_array;
                       fi3 = map2 (\<lambda>x s. np_add x (Fin (s * 0.01 * confidence))) fi2 stability;
                       fi4 = map (np_clip (- 0.8) 0.8) fi3
                   in Inr (fi4, np_add (Fin 0.5) (np_mean fi4))))))"

text \<open>
  Lines 183-191: smoothing, the rescale to a maximum of 0.6 (skipped unless the maximum
  absolute value compares greater than 0) and the replacement of non-finite entries.
\<close>

definition rescale_importance :: "npfloat list \<Rightarrow> npfloat list" where
  "rescale_importance feature_importance =
     (let max_abs = np_amax (map np_abs feature_importance)
      in if np_gt max_abs (Fin 0)
         then map (\<lambda>x. np_mul (np_div x max_abs) (Fin 0.6)) feature_importance
         else feature_importance)"

definition finalize_importance :: "npfloat list \<Rightarrow> real list" where
  "finalize_importance feature_importance =
     map (nan_to_num 0.0 0.6 (- 0.6)) (rescale_importance (gaussian_filter1d feature_importance))"

text \<open>\<open>_identify_top_regions\<close>: the scan (lines 236-255), then the sort and the cut.\<close>

definition region_scan_step ::
  "real list \<Rightarrow> real list \<Rightarrow> nat \<times> bool \<Rightarrow> top_region list \<times> bool \<times> nat
     \<Rightarrow> py_error + top_region list \<times> bool \<times> nat" where
  "region_scan_step feature_importance time_points ib s =
     (case ib of (i, is_important) \<Rightarrow> (case s of (regions, in_region, region_start) \<Rightarrow>
        if is_important \<and> \<not> in_region then Inr (regions, True, i)
        else if \<not> is_important \<and> in_region then
          (let region_end = i;
               region_importance =
                 mean (take (region_end - region_start) (drop region_start feature_importance))
           in case py_index time_points region_start of
                Inl e \<Rightarrow> Inl e
              | Inr st \<Rightarrow>
                  (case py_index time_points (region_end - 1) of
                     Inl e \<Rightarrow> Inl e
                   | Inr et \<Rightarrow>
                       Inr (regions @
                              [\<lparr>start_time = st, end_time = et, importance = region_importance,
                                contribution_percent = \<bar>region_importance\<bar> * 100\<rparr>],
                            False, region_start)))
        else Inr (regions, in_region, region_start)))"

fun region_scan ::
  "real list \<Rightarrow> real list \<Rightarrow> (nat \<times> bool) list \<Rightarrow> top_region list \<times> bool \<times> nat
     \<Rightarrow> py_error + top_region list \<times> bool \<times> nat" where
  "region_scan feature_importance time_points [] s = Inr s"
| "region_scan feature_importance time_points (ib # rest) s =
     (case region_scan_step feature_importance time_points ib s of
        Inl e \<Rightarrow> Inl e
      | Inr s' \<Rightarrow> region_scan feature_importance time_points rest s')"

definition identify_top_regions ::
  "real list \<Rightarrow> real list \<Rightarrow> nat \<Rightarrow> py_error + top_region list" where
  "identify_top_regions feature_importance time_points top_k =
     (let abs_importance = map abs feature_importance;
          threshold = percentile abs_importance 80;
          important_mask = map (\<lambda>a. threshold < a) abs_importance
      in case region_scan feature_importance time_points (enumerate 0 important_mask)
                ([], False, 0) of
           Inl e \<Rightarrow> Inl e
         | Inr (regions, in_region, region_start) \<Rightarrow>
             Inr (take top_k (sort_key (\<lambda>x. - \<bar>importance x\<bar>) regions)))"

text \<open>\<open>_generate_explanation\<close>: the templated sentence.\<close>

definition generate_explanation ::
  "'g runtime \<Rightarrow> string \<Rightarrow> real \<Rightarrow> top_region list \<Rightarrow> transit_region list \<Rightarrow> string" where
  "generate_explanation R classification confidence top_regions transit_regions =
     (if classification = ''exoplanet'' then
        (if transit_regions = [] then
           ''Model detected EXOPLANET with '' @ fmt1 R (confidence * 100) @
           ''% confidence, though no clear transit regions were identified. This may indicate a subtle or complex signal.''
         else
           (let n_transits = length transit_regions;
                transit_text = fmt_int R n_transits @ '' periodic transit event'' @
                               (if 1 < n_transits then ''s'' else '''');
                time_info =
                  (case top_regions of
                     top_reg # rest \<Rightarrow>
                       if 0 < importance top_reg then
                         '' The strongest supporting evidence appears at '' @
                         fmt1 R (start_time top_reg) @ ''-'' @ fmt1 R (end_time top_reg) @
                         '' days (contributing +'' @ fmt1 R (contribution_percent top_reg) @
                         ''% toward exoplanet classification).''
                       else ''''
                   | [] \<Rightarrow> '''')
            in ''Model detected EXOPLANET with '' @ fmt1 R (confidence * 100) @
               ''% confidence based on '' @ transit_text @ ''.'' @ time_info @
               '' Blue/positive SHAP regions show transit dips that SUPPORT the exoplanet detection.''))
      else
        (let reason =
               (case top_regions of
                  top_reg # rest \<Rightarrow>
                    if 0 < importance top_reg then
                      ''high noise/variability at '' @ fmt1 R (start_time top_reg) @ ''-'' @
                      fmt1 R (end_time top_reg) @ '' days (+'' @
                      fmt1 R (contribution_percent top_reg) @ ''%)''
                    else
                      ''suspicious dips at '' @ fmt1 R (start_time top_reg) @ ''-'' @
                      fmt1 R (end_time top_reg) @ '' days were insufficient evidence ('' @
                      fmt1 R (contribution_percent top_reg) @ ''%)''
                | [] \<Rightarrow> ''lack of convincing periodic transit patterns'')
         in ''Model classified as NO PLANET with '' @ fmt1 R (confidence * 100) @
            ''% confidence due to '' @ reason @
            ''. Blue/positive SHAP shows features SUPPORTING rejection (noise, irregularity), while red/negative shows weak transit-like features that were insufficient.''))"

text \<open>
  \<open>_generate_synthetic_shap\<close>. The generator is reseeded with 42 whatever its state was,
  and the background noise is drawn from the reseeded generator; the state left behind
  is the one after these draws, also when a later step raises. The defaults of
  \<open>np.nan_to_num\<close> for an infinite predicted value are the largest double and its
  negative.
\<close>

definition generate_synthetic_shap ::
  "'g runtime \<Rightarrow> real list \<Rightarrow> real list \<Rightarrow> string \<Rightarrow> real \<Rightarrow> transit_region list \<Rightarrow> 'g
     \<Rightarrow> (py_error + shap_explanation) \<times> 'g" where
  "generate_synthetic_shap R light_curve time_points classification confidence transit_regions g =
     (let n_points = length light_curve;
          base_value = 0.5
      in case normal R 0 0.01 n_points (rng_seed R 42) of (background_noise, g') \<Rightarrow>
        (let feature_importance = map Fin background_noise
         in case (if classification = ''exoplanet''
                  then exoplanet_importance light_curve time_points confidence transit_regions
                         feature_importance
                  else no_planet_importance light_curve time_points confidence transit_regions
                         feature_importance) of
              Inl e \<Rightarrow> (Inl e, g')
            | Inr (fi, predicted) \<Rightarrow>
                (let final = finalize_importance fi;
                     predicted_value = nan_to_num 0.5 float_max (- float_max)
                                         (np_clip 0.0 1.0 predicted)
                 in case identify_top_regions final time_points 5 of
                      Inl e \<Rightarrow> (Inl e, g')
                    | Inr top_regions \<Rightarrow>
                        (Inr \<lparr>shap_feature_importance = final,
                              shap_top_contributing_regions = top_regions,
                              shap_explanation_summary =
                                generate_explanation R classification confidence top_regions
                                  transit_regions,
                              shap_base_value = base_value,
                              shap_predicted_value = predicted_value\<rparr>, g'))))"

definition explain_prediction ::
  "'g runtime \<Rightarrow> real list \<Rightarrow> real list \<Rightarrow> string \<Rightarrow> real \<Rightarrow> transit_region list \<Rightarrow> 'g
     \<Rightarrow> (py_error + shap_explanation) \<times> 'g" where
  "explain_prediction R light_curve time_points classification confidence transit_regions g =
     generate_synthetic_shap R light_curve time_points classification confidence
       transit_regions g"

section \<open>The prediction service (services/prediction.py) and its boundary (main.py)\<close>

text \<open>
  A catalog entry: a field of \<open>params\<close> is \<open>None\<close> when the key is absent, and a number
  or a string when it is present.
\<close>

record sample_params =
  param_period_days :: "real option"
  param_transit_depth :: "real option"
  param_transit_duration :: "real option"
  param_planet_radius :: "real option"
  param_anomaly_type :: "string option"

record sample =
  s_id :: string
  s_name :: string
  s_truth :: string
  s_params :: sample_params

record analysis_metadata =
  orbital_period :: "real option"
  meta_transit_duration :: "real option"
  meta_planet_radius :: "real option"
  star_name :: string
  discovery_method :: string

text \<open>The dictionary \<open>_predict_synthetic\<close> returns, and the response \<open>predict\<close> makes of it.\<close>

record prediction_result =
  resp_classification :: string
  confidence_score :: real
  class_probabilities :: "(string \<times> real) list"
  light_curve_data :: "real list"
  resp_time_points :: "real list"
  highlighted_regions :: "transit_region list"
  analysis :: analysis_metadata
  resp_shap_explanation :: shap_explanation
  model_version :: string

record analysis_response = prediction_result +
  processing_time_ms :: int

text \<open>
  Lines 73-105 of \<open>_predict_synthetic\<close>: the light curve for the truth label, then the
  label and the confidence from the hash of the identifier.
\<close>

definition synthesize ::
  "'g runtime \<Rightarrow> sample \<Rightarrow> 'g \<Rightarrow> (py_error + light_curve \<times> string \<times> real) \<times> 'g" where
  "synthesize R sample g =
     (let truth = s_truth sample; params = s_params sample in
      if truth = ''confirmed'' then
        (case generate_confirmed_planet R
                (case param_period_days params of None \<Rightarrow> 10 | Some p \<Rightarrow> p)
                (case param_transit_depth params of None \<Rightarrow> 0.01 | Some d \<Rightarrow> d)
                (case param_transit_duration params of None \<Rightarrow> 3 | Some t \<Rightarrow> t)
                1000 (param_planet_radius params) g of
           (Inl e, g') \<Rightarrow> (Inl e, g')
         | (Inr lc, g') \<Rightarrow>
             (Inr (lc, ''exoplanet'', 0.90 + real_of_int (py_hash R (s_id sample) mod 8) / 100), g'))
      else if truth = ''candidate'' then
        (case generate_candidate R 1000 g of
           (Inl e, g') \<Rightarrow> (Inl e, g')
         | (Inr lc, g') \<Rightarrow>
             (let candidate_hash = py_hash R (s_id sample) mod 100 in
              if candidate_hash < 70
              then (Inr (lc, ''exoplanet'', 0.60 + real_of_int (candidate_hash mod 20) / 100), g')
              else (Inr (lc, ''no_planet'', 0.55 + real_of_int (candidate_hash mod 15) / 100), g')))
      else
        (case generate_false_positive R 1000
                (case param_anomaly_type params of None \<Rightarrow> ''noise'' | Some a \<Rightarrow> a) g of
           (Inl e, g') \<Rightarrow> (Inl e, g')
         | (Inr lc, g') \<Rightarrow>
             (Inr (lc, ''no_planet'', 0.85 + real_of_int (py_hash R (s_id sample) mod 12) / 100), g')))"

text \<open>\<open>_predict_synthetic\<close>: probabilities, explanation and the assembled dictionary.\<close>

definition predict_synthetic ::
  "'g runtime \<Rightarrow> sample \<Rightarrow> 'g \<Rightarrow> (py_error + prediction_result) \<times> 'g" where
  "predict_synthetic R sample g =
     (case synthesize R sample g of
        (Inl e, g') \<Rightarrow> (Inl e, g')
      | (Inr ((time_points, flux, transit_regions), classification, confidence), g') \<Rightarrow>
          (let probs =
                 (if classification = ''exoplanet''
                  then [(''exoplanet'', confidence), (''no_planet'', 1 - confidence)]
                  else [(''exoplanet'', 1 - confidence), (''no_planet'', confidence)])
           in case explain_prediction R flux time_points classification confidence
                     transit_regions g' of
                (Inl e, g'') \<Rightarrow> (Inl e, g'')
              | (Inr shap_data, g'') \<Rightarrow>
                  (Inr \<lparr>resp_classification = classification,
                        confidence_score = confidence,
                        class_probabilities = probs,
                        light_curve_data = flux,
                        resp_time_points = time_points,
                        highlighted_regions = transit_regions,
                        analysis =
                          \<lparr>orbital_period = param_period_days (s_params sample),
                           meta_transit_duration = param_transit_duration (s_params sample),
                           meta_planet_radius = param_planet_radius (s_params sample),
                           star_name = s_name sample,
                           discovery_method = ''Transit''\<rparr>,
                        resp_shap_explanation = shap_data,
                        model_version = ''CosmicNet-v1.0''\<rparr>, g'')))"

text \<open>
  \<open>predict\<close>. \<open>elapsed\<close> is the time in seconds between the two readings of the clock.
  \<open>_sanitize_floats\<close> changes no finite float, so it is the identity on the model's
  reals. The response model accepts a confidence in \<open>[0, 1]\<close> only.
\<close>

definition py_int :: "real \<Rightarrow> int" where
  "py_int x = (if 0 \<le> x then \<lfloor>x\<rfloor> else \<lceil>x\<rceil>)"

definition predict ::
  "'g runtime \<Rightarrow> real \<Rightarrow> sample list \<Rightarrow> string \<Rightarrow> 'g \<Rightarrow> (py_error + analysis_response) \<times> 'g" where
  "predict R elapsed samples_db sample_id g =
     (case find (\<lambda>s. s_id s = sample_id) samples_db of
        None \<Rightarrow> (Inl (ValueError (''Sample '' @ sample_id @ '' not found'')), g)
      | Some sample \<Rightarrow>
          (case predict_synthetic R sample g of
             (Inl e, g') \<Rightarrow> (Inl e, g')
           | (Inr result, g') \<Rightarrow>
               (let processing_time = py_int (elapsed * 1000) in
                if 0 \<le> confidence_score result \<and> confidence_score result \<le> 1
                then (Inr (prediction_result.extend result
                             (analysis_response.fields processing_time)), g')
                else (Inl ValidationError, g'))))"

text \<open>
  The route \<open>/api/predict\<close> of main.py: a ValueError (the validation error of the
  response model is one) becomes status 404, any other exception status 500. The
  messages of exceptions raised by libraries are abbreviated.
\<close>

datatype http_error = HTTPException nat string

fun error_text :: "py_error \<Rightarrow> string" where
  "error_text (ValueError m) = m"
| "error_text ZeroDivisionError = ''float division by zero''"
| "error_text OverflowError = ''Numerical result out of range''"
| "error_text IndexError = ''index out of range''"
| "error_text ValidationError = ''validation error for AnalysisResponse''"

definition predict_exoplanet ::
  "'g runtime \<Rightarrow> real \<Rightarrow> sample list \<Rightarrow> string \<Rightarrow> 'g \<Rightarrow> (http_error + analysis_response) \<times> 'g" where
  "predict_exoplanet R elapsed samples_db sample_id g =
     (case predict R elapsed samples_db sample_id g of
        (Inr result, g') \<Rightarrow> (Inr result, g')
      | (Inl (ValueError m), g') \<Rightarrow> (Inl (HTTPException 404 m), g')
      | (Inl ValidationError, g') \<Rightarrow> (Inl (HTTPException 404 (error_text ValidationError)), g')
      | (Inl e, g') \<Rightarrow> (Inl (HTTPException 500 (''Prediction failed: '' @ error_text e)), g'))"

section \<open>Notions used to state the properties\<close>

text \<open>A computation returned a value, and the value satisfies \<open>P\<close>.\<close>

definition returned :: "(py_error + 'a) \<times> 'g \<Rightarrow> ('a \<Rightarrow> bool) \<Rightarrow> bool" where
  "returned res P = (case fst res of Inl e \<Rightarrow> False | Inr x \<Rightarrow> P x)"

text \<open>
  A runtime for evaluating the model on concrete inputs: every normal draw is 0, the
  generator state counts the draws, the hash of a string is its length.
\<close>

definition quiet_runtime :: "nat runtime" where
  "quiet_runtime = \<lparr>py_hash = (\<lambda>s. int (length s)), rng_seed = (\<lambda>s. 0),
     rng_gauss = (\<lambda>g. (0, Suc g)), fmt1 = (\<lambda>x. ''x.x''), fmt_int = (\<lambda>n. ''n'')\<rparr>"

subsection \<open>The time grid of a light curve\<close>



subsection \<open>Transit regions\<close>

text \<open>
  Sample \<open>i\<close> of a time grid is a dip: the test of line 74 holds for it. The regions the
  loop has recorded after \<open>k\<close> samples depend on the dips and their depth factors only;
  \<open>region_trace\<close> replays lines 83-94 over them.
\<close>

definition dip_at :: "real \<Rightarrow> real \<Rightarrow> real list \<Rightarrow> nat \<Rightarrow> bool" where
  "dip_at period_days transit_width time i =
     (i < length time \<and> in_transit period_days transit_width (time ! i))"

fun region_trace :: "(nat \<Rightarrow> bool) \<Rightarrow> (nat \<Rightarrow> real) \<Rightarrow> nat \<Rightarrow> transit_region list" where
  "region_trace dip df 0 = []"
| "region_trace dip df (Suc k) =
     (if dip k then record_region (region_trace dip df k) k (df k)
      else region_trace dip df k)"

definition dip_span :: "(nat \<Rightarrow> bool) \<Rightarrow> transit_region \<Rightarrow> nat set" where
  "dip_span dip r = {i. dip i \<and> start_index r \<le> int i \<and> int i \<le> end_index r}"

definition region_inv ::
  "(nat \<Rightarrow> bool) \<Rightarrow> (nat \<Rightarrow> real) \<Rightarrow> nat \<Rightarrow> transit_region list \<Rightarrow> bool" where
  "region_inv dip df k rs \<longleftrightarrow>
     (\<forall>r \<in> set rs. \<exists>a b. start_index r = int a \<and> end_index r = int b \<and> a \<le> b \<and> b < k
                          \<and> dip a \<and> dip b) \<and>
     sorted_wrt (\<lambda>x y. end_index x + 10 < start_index y) rs \<and>
     (\<forall>i < k. dip i \<longrightarrow> (\<exists>r \<in> set rs. i \<in> dip_span dip r)) \<and>
     (\<forall>r \<in> set rs. \<forall>i \<in> dip_span dip r. start_index r < int i \<longrightarrow>
         (\<exists>j \<in> dip_span dip r. int i - 10 \<le> int j \<and> j < i)) \<and>
     (\<forall>r \<in> set rs. depth r = Max (df ` dip_span dip r))"

text \<open>
  What the regions recorded over \<open>n\<close> samples satisfy: index bounds, order without
  overlap, and \<open>region_inv\<close>: every dip lies in a region, regions start and end at dips
  and lie more than 10 samples apart, every later dip of a region has a dip of the same
  region at most 10 samples before it, and the depth of a region is the largest depth
  factor among its dips.
\<close>

definition regions_characterised ::
  "(nat \<Rightarrow> bool) \<Rightarrow> (nat \<Rightarrow> real) \<Rightarrow> nat \<Rightarrow> transit_region list \<Rightarrow> bool" where
  "regions_characterised dip df n rs \<longleftrightarrow>
     list_all (\<lambda>r. 0 \<le> start_index r \<and> start_index r \<le> end_index r \<and> end_index r < int n) rs \<and>
     sorted_wrt (\<lambda>x y. end_index x < start_index y) rs \<and>
     sorted_wrt (\<lambda>x y. start_index x < start_index y) rs \<and>
     region_inv dip df n rs"

text \<open>
  The transit window as the specification words it: half-width
  \<open>min(0.04, transit_duration / (period_days * 24))\<close> around phase 0.5, closed on the left.
\<close>

definition spec_in_transit :: "real \<Rightarrow> real \<Rightarrow> real \<Rightarrow> bool" where
  "spec_in_transit period_days transit_duration t =
     (let half_width = min 0.04 (transit_duration / (period_days * 24));
          phase = py_fmod t period_days / period_days
      in 0.5 - half_width \<le> phase \<and> phase < 0.5 + half_width)"

text \<open>
  The label and the confidence a synthesis returned, if it returned.
\<close>

definition resolved :: "(py_error + light_curve \<times> string \<times> real) \<times> 'g \<Rightarrow> (string \<times> real) option" where
  "resolved res = (case fst res of Inl e \<Rightarrow> None | Inr (lc, cls, conf) \<Rightarrow> Some (cls, conf))"

text \<open>
  Three catalog entries, one of each truth label, as the concrete scenarios of the
  specification give them.
\<close>

definition kepler_186f :: sample where
  "kepler_186f = \<lparr>s_id = ''kepler-186f'', s_name = ''Kepler-186f'', s_truth = ''confirmed'',
     s_params = \<lparr>param_period_days = Some 130, param_transit_depth = None,
       param_transit_duration = Some 2, param_planet_radius = Some 1.1,
       param_anomaly_type = None\<rparr>\<rparr>"

definition eb_001 :: sample where
  "eb_001 = \<lparr>s_id = ''eb-001'', s_name = ''EB-001'', s_truth = ''false_positive'',
     s_params = \<lparr>param_period_days = None, param_transit_depth = None,
       param_transit_duration = None, param_planet_radius = None,
       param_anomaly_type = Some ''eclipsing_binary''\<rparr>\<rparr>"

definition koi_5123 :: sample where
  "koi_5123 = \<lparr>s_id = ''koi-5123'', s_name = ''KOI-5123'', s_truth = ''candidate'',
     s_params = \<lparr>param_period_days = None, param_transit_depth = None,
       param_transit_duration = None, param_planet_radius = None,
       param_anomaly_type = None\<rparr>\<rparr>"



text \<open>
  A runtime with a given string hash, and the values CPython 3.11 gives the identifier
  \<open>koi-5123\<close> under \<open>PYTHONHASHSEED=1\<close> and \<open>PYTHONHASHSEED=8\<close>.
\<close>

definition run_with_hash :: "(string \<Rightarrow> int) \<Rightarrow> nat runtime" where
  "run_with_hash h = quiet_runtime\<lparr>py_hash := h\<rparr>"

definition hash_seed_1 :: "string \<Rightarrow> int" where
  "hash_seed_1 s = (if s = ''koi-5123'' then - 8314819545919634149 else int (length s))"

definition hash_seed_8 :: "string \<Rightarrow> int" where
  "hash_seed_8 s = (if s = ''koi-5123'' then - 7398759195959465421 else int (length s))"

text \<open>
  Lines 81-82, 89-97 and 104-105 of \<open>_predict_synthetic\<close> as a function of the truth label
  and of the hash of the identifier.
\<close>

definition resolver_value :: "string \<Rightarrow> int \<Rightarrow> string \<times> real" where
  "resolver_value truth h =
     (if truth = ''confirmed'' then (''exoplanet'', 0.90 + real_of_int (h mod 8) / 100)
      else if truth = ''candidate'' then
        (if h mod 100 < 70 then (''exoplanet'', 0.60 + real_of_int (h mod 100 mod 20) / 100)
         else (''no_planet'', 0.55 + real_of_int (h mod 100 mod 15) / 100))
      else (''no_planet'', 0.85 + real_of_int (h mod 12) / 100))"

text \<open>
  An input of the explanation engine with a transit region of a single sample: 20
  samples 0.03 days apart, a flat light curve, and two regions, the first of which
  starts and ends at sample 0.
\<close>

definition demo_time :: "real list" where
  "demo_time = map (\<lambda>j. 3 / 100 * real j) [0..<20]"

definition demo_flux :: "real list" where
  "demo_flux = replicate 20 1"

definition demo_regions :: "transit_region list" where
  "demo_regions = [\<lparr>start_index = 0, end_index = 0, depth = 1 / 100\<rparr>,
                   \<lparr>start_index = 11, end_index = 17, depth = 1 / 100\<rparr>]"

text \<open>
  What the explanation engine needs of a light curve in order to return: at least 3
  samples, as many times as fluxes, and regions within the index range.
\<close>

definition well_formed_curve :: "light_curve \<Rightarrow> bool" where
  "well_formed_curve c = (case c of (time, flux, rs) \<Rightarrow>
     3 \<le> length flux \<and> length time = length flux \<and>
     list_all (\<lambda>r. 0 \<le> start_index r \<and> start_index r \<le> end_index r \<and>
                     end_index r < int (length flux)) rs)"

section \<open>Properties of the generator\<close>

subsection \<open>NumPy helpers\<close>

lemma length_normal: "length (fst (normal R loc scale n g)) = n"
proof (induction n arbitrary: g)
  case 0
  then show ?case by simp
next
  case (Suc n)
  obtain z g1 where z: "rng_gauss R g = (z, g1)" by (cases "rng_gauss R g")
  obtain zs g2 where zs: "normal R loc scale n g1 = (zs, g2)" by (cases "normal R loc scale n g1")
  from Suc [of g1] zs have "length zs = n" by simp
  then show ?case using z zs by simp
qed

lemma length_linspace: "length (linspace a b n) = n"
  by (simp add: linspace_def)

lemma linspace_nth:
  "i < n \<Longrightarrow> linspace a b n ! i = a + real i * ((b - a) / real (n - 1))"
  by (auto simp: linspace_def)





lemma length_transit_fold:
  "length (fst (fold (transit_step p d w) xs s)) = length (fst s)"
  by (induction xs arbitrary: s) (auto simp: transit_step_def Let_def split: prod.splits)

lemma length_candidate_fold: "length (fold candidate_step xs flux) = length flux"
  by (induction xs arbitrary: flux) (auto simp: candidate_step_def Let_def split: prod.splits)

lemma length_eclipse_dip: "length time = length flux \<Longrightarrow> length (eclipse_dip time tc flux) = length flux"
  by (simp add: eclipse_dip_def)

subsection \<open>The region bookkeeping of the transit loop\<close>

lemma sorted_wrt_snoc:
  "sorted_wrt P (xs @ [y]) \<longleftrightarrow> sorted_wrt P xs \<and> (\<forall>x \<in> set xs. P x y)"
  by (simp add: sorted_wrt_append)

lemma region_inv_last_end:
  assumes "region_inv dip df k rs" "r \<in> set rs"
  shows "end_index r \<le> end_index (last rs)"
proof -
  from assms(2) have ne: "rs \<noteq> []" by auto
  then have rs: "rs = butlast rs @ [last rs]" by simp
  show ?thesis
  proof (cases "r = last rs")
    case True
    then show ?thesis by simp
  next
    case False
    with assms(2) rs have "r \<in> set (butlast rs)"
      by (metis Un_iff empty_iff empty_set insert_iff list.simps(15) set_append)
    moreover have "sorted_wrt (\<lambda>x y. end_index x + 10 < start_index y) (butlast rs @ [last rs])"
      using assms(1) rs by (simp add: region_inv_def)
    ultimately have "end_index r + 10 < start_index (last rs)"
      by (simp add: sorted_wrt_snoc)
    moreover have "start_index (last rs) \<le> end_index (last rs)"
      using assms(1) ne unfolding region_inv_def by (metis last_in_set of_nat_le_iff)
    ultimately show ?thesis by simp
  qed
qed

lemma dip_span_finite:
  "finite (dip_span dip r)"
proof -
  have "dip_span dip r \<subseteq> {i. i \<le> nat (end_index r)}"
    by (auto simp: dip_span_def)
  then show ?thesis by (rule finite_subset) simp
qed


lemma region_inv_skip:
  assumes "region_inv dip df k rs" "\<not> dip k"
  shows "region_inv dip df (Suc k) rs"
proof -
  have 1: "\<forall>r \<in> set rs. \<exists>a b. start_index r = int a \<and> end_index r = int b \<and> a \<le> b
              \<and> b < Suc k \<and> dip a \<and> dip b"
    using assms(1) unfolding region_inv_def by (meson less_SucI)
  have 3: "\<forall>i < Suc k. dip i \<longrightarrow> (\<exists>r \<in> set rs. i \<in> dip_span dip r)"
    using assms unfolding region_inv_def by (metis less_Suc_eq)
  show ?thesis
    using assms(1) 1 3 unfolding region_inv_def by blast
qed

lemma region_inv_open:
  assumes inv: "region_inv dip df k rs" and dk: "dip k"
    and c: "rs = [] \<or> end_index (last rs) < int k - 10"
  shows "region_inv dip df (Suc k)
           (rs @ [\<lparr>start_index = int k, end_index = int k, depth = df k\<rparr>])"
proof -
  let ?new = "\<lparr>start_index = int k, end_index = int k, depth = df k\<rparr>"
  have far: "end_index x + 10 < int k" if "x \<in> set rs" for x
    using region_inv_last_end [OF inv that] c that by auto
  have span_new: "dip_span dip ?new = {k}"
    using dk by (auto simp: dip_span_def)
  have 1: "\<forall>r \<in> set (rs @ [?new]). \<exists>a b. start_index r = int a \<and> end_index r = int b \<and> a \<le> b
              \<and> b < Suc k \<and> dip a \<and> dip b"
  proof
    fix r assume "r \<in> set (rs @ [?new])"
    then consider "r \<in> set rs" | "r = ?new" by auto
    then show "\<exists>a b. start_index r = int a \<and> end_index r = int b \<and> a \<le> b
              \<and> b < Suc k \<and> dip a \<and> dip b"
    proof cases
      case 1
      then show ?thesis using inv unfolding region_inv_def by (meson less_SucI)
    next
      case 2
      then show ?thesis using dk by (intro exI [of _ k]) simp
    qed
  qed
  have 2: "sorted_wrt (\<lambda>x y. end_index x + 10 < start_index y) (rs @ [?new])"
    using inv far by (simp add: sorted_wrt_snoc region_inv_def)
  have 3: "\<forall>i < Suc k. dip i \<longrightarrow> (\<exists>r \<in> set (rs @ [?new]). i \<in> dip_span dip r)"
  proof (intro allI impI)
    fix i assume i: "i < Suc k" "dip i"
    show "\<exists>r \<in> set (rs @ [?new]). i \<in> dip_span dip r"
    proof (cases "i = k")
      case True
      then show ?thesis using span_new by simp
    next
      case False
      then have "i < k" using i by simp
      then obtain r where "r \<in> set rs" "i \<in> dip_span dip r"
        using inv i(2) unfolding region_inv_def by blast
      then show ?thesis by auto
    qed
  qed
  have 4: "\<forall>r \<in> set (rs @ [?new]). \<forall>i \<in> dip_span dip r. start_index r < int i \<longrightarrow>
         (\<exists>j \<in> dip_span dip r. int i - 10 \<le> int j \<and> j < i)"
  proof
    fix r assume "r \<in> set (rs @ [?new])"
    then consider "r \<in> set rs" | "r = ?new" by auto
    then show "\<forall>i \<in> dip_span dip r. start_index r < int i \<longrightarrow>
         (\<exists>j \<in> dip_span dip r. int i - 10 \<le> int j \<and> j < i)"
    proof cases
      case 1
      then show ?thesis using inv unfolding region_inv_def by blast
    next
      case 2
      then show ?thesis using span_new by simp
    qed
  qed
  have 5: "\<forall>r \<in> set (rs @ [?new]). depth r = Max (df ` dip_span dip r)"
  proof
    fix r assume "r \<in> set (rs @ [?new])"
    then consider "r \<in> set rs" | "r = ?new" by auto
    then show "depth r = Max (df ` dip_span dip r)"
    proof cases
      case 1
      then show ?thesis using inv unfolding region_inv_def by blast
    next
      case 2
      then show ?thesis using span_new by simp
    qed
  qed
  show ?thesis
    unfolding region_inv_def using 1 2 3 4 5 by blast
qed


lemma region_inv_extend:
  assumes inv: "region_inv dip df k rs" and dk: "dip k" and ne: "rs \<noteq> []"
    and c: "\<not> end_index (last rs) < int k - 10"
  shows "region_inv dip df (Suc k)
           (butlast rs @ [(last rs)\<lparr>end_index := int k,
                                     depth := max (depth (last rs)) (df k)\<rparr>])"
proof -
  let ?l = "last rs"
  let ?l' = "?l\<lparr>end_index := int k, depth := max (depth ?l) (df k)\<rparr>"
  have l_in: "?l \<in> set rs" using ne by simp
  have rs: "rs = butlast rs @ [?l]" using ne by simp
  have set_rs: "set rs = set (butlast rs) \<union> {?l}"
    using rs by (metis Un_insert_right list.simps(15) set_append sup_bot.right_neutral empty_set)
  have bl: "set (butlast rs) \<subseteq> set rs" using set_rs by auto
  obtain a b where ab: "start_index ?l = int a" "end_index ?l = int b" "a \<le> b" "b < k"
      "dip a" "dip b"
    using inv l_in unfolding region_inv_def by blast
  have nogap: "i \<le> b" if di: "dip i" "i < k" for i
  proof -
    have "\<forall>i < k. dip i \<longrightarrow> (\<exists>r \<in> set rs. i \<in> dip_span dip r)"
      using inv by (simp add: region_inv_def)
    then obtain r where r: "r \<in> set rs" "i \<in> dip_span dip r"
      using di by blast
    then have "int i \<le> end_index r" by (simp add: dip_span_def)
    also have "\<dots> \<le> end_index ?l" by (rule region_inv_last_end [OF inv r(1)])
    finally show ?thesis using ab by simp
  qed
  have span': "dip_span dip ?l' = insert k (dip_span dip ?l)"
  proof
    show "dip_span dip ?l' \<subseteq> insert k (dip_span dip ?l)"
    proof
      fix i assume "i \<in> dip_span dip ?l'"
      then have i: "dip i" "int a \<le> int i" "i \<le> k" using ab by (auto simp: dip_span_def)
      show "i \<in> insert k (dip_span dip ?l)"
      proof (cases "i = k")
        case True
        then show ?thesis by simp
      next
        case False
        then have "i \<le> b" using nogap i by simp
        then show ?thesis using i ab by (simp add: dip_span_def)
      qed
    qed
    show "insert k (dip_span dip ?l) \<subseteq> dip_span dip ?l'"
      using ab dk by (auto simp: dip_span_def)
  qed
  have a_in: "a \<in> dip_span dip ?l" and b_in: "b \<in> dip_span dip ?l"
    using ab by (auto simp: dip_span_def)
  have 1: "\<forall>r \<in> set (butlast rs @ [?l']). \<exists>a b. start_index r = int a \<and> end_index r = int b
              \<and> a \<le> b \<and> b < Suc k \<and> dip a \<and> dip b"
  proof
    fix r assume "r \<in> set (butlast rs @ [?l'])"
    then consider "r \<in> set rs" | "r = ?l'" using bl by auto
    then show "\<exists>a b. start_index r = int a \<and> end_index r = int b \<and> a \<le> b
              \<and> b < Suc k \<and> dip a \<and> dip b"
    proof cases
      case 1
      then show ?thesis using inv unfolding region_inv_def by (meson less_SucI)
    next
      case 2
      then show ?thesis using dk ab by (intro exI [of _ a] exI [of _ k]) simp
    qed
  qed
  have "sorted_wrt (\<lambda>x y. end_index x + 10 < start_index y) (butlast rs @ [?l])"
    using inv rs by (simp add: region_inv_def)
  then have 2: "sorted_wrt (\<lambda>x y. end_index x + 10 < start_index y) (butlast rs @ [?l'])"
    by (simp add: sorted_wrt_snoc)
  have 3: "\<forall>i < Suc k. dip i \<longrightarrow> (\<exists>r \<in> set (butlast rs @ [?l']). i \<in> dip_span dip r)"
  proof (intro allI impI)
    fix i assume i: "i < Suc k" "dip i"
    show "\<exists>r \<in> set (butlast rs @ [?l']). i \<in> dip_span dip r"
    proof (cases "i = k")
      case True
      then show ?thesis using span' by simp
    next
      case False
      then have "i < k" using i by simp
      then obtain r where r: "r \<in> set rs" "i \<in> dip_span dip r"
        using inv i(2) unfolding region_inv_def by blast
      show ?thesis
      proof (cases "r = ?l")
        case True
        then have "i \<in> dip_span dip ?l'" using r span' by simp
        then show ?thesis by simp
      next
        case False
        then have "r \<in> set (butlast rs)" using r set_rs by auto
        then show ?thesis using r by auto
      qed
    qed
  qed
  have 4: "\<forall>r \<in> set (butlast rs @ [?l']). \<forall>i \<in> dip_span dip r. start_index r < int i \<longrightarrow>
         (\<exists>j \<in> dip_span dip r. int i - 10 \<le> int j \<and> j < i)"
  proof
    fix r assume "r \<in> set (butlast rs @ [?l'])"
    then consider "r \<in> set rs" | "r = ?l'" using bl by auto
    then show "\<forall>i \<in> dip_span dip r. start_index r < int i \<longrightarrow>
         (\<exists>j \<in> dip_span dip r. int i - 10 \<le> int j \<and> j < i)"
    proof cases
      case 1
      then show ?thesis using inv unfolding region_inv_def by blast
    next
      case 2
      show ?thesis
      proof (intro ballI impI)
        fix i assume i: "i \<in> dip_span dip r" "start_index r < int i"
        show "\<exists>j \<in> dip_span dip r. int i - 10 \<le> int j \<and> j < i"
        proof (cases "i = k")
          case True
          have "b \<in> dip_span dip r" using 2 span' b_in by simp
          moreover have "int i - 10 \<le> int b" "b < i" using True c ab by simp_all
          ultimately show ?thesis by blast
        next
          case False
          then have il: "i \<in> dip_span dip ?l" using i 2 span' by simp
          moreover have "start_index ?l < int i" using i 2 by simp
          ultimately obtain j where "j \<in> dip_span dip ?l" "int i - 10 \<le> int j" "j < i"
            using inv l_in unfolding region_inv_def by blast
          then show ?thesis using 2 span' by auto
        qed
      qed
    qed
  qed
  have 5: "\<forall>r \<in> set (butlast rs @ [?l']). depth r = Max (df ` dip_span dip r)"
  proof
    fix r assume "r \<in> set (butlast rs @ [?l'])"
    then consider "r \<in> set rs" | "r = ?l'" using bl by auto
    then show "depth r = Max (df ` dip_span dip r)"
    proof cases
      case 1
      then show ?thesis using inv unfolding region_inv_def by blast
    next
      case 2
      have fin: "finite (df ` dip_span dip ?l)" using dip_span_finite by simp
      have nonempty: "df ` dip_span dip ?l \<noteq> {}" using a_in by auto
      have old: "depth ?l = Max (df ` dip_span dip ?l)"
        using inv l_in unfolding region_inv_def by blast
      have "Max (df ` dip_span dip ?l') = Max (insert (df k) (df ` dip_span dip ?l))"
        using span' by simp
      also have "\<dots> = max (df k) (Max (df ` dip_span dip ?l))"
        using fin nonempty by (rule Max_insert)
      finally show ?thesis using 2 old by (simp add: max.commute)
    qed
  qed
  show ?thesis
    unfolding region_inv_def using 1 2 3 4 5 by blast
qed

lemma region_trace_inv: "region_inv dip df k (region_trace dip df k)"
proof (induction k)
  case 0
  then show ?case by (simp add: region_inv_def)
next
  case (Suc k)
  show ?case
  proof (cases "dip k")
    case False
    then show ?thesis using Suc by (simp add: region_inv_skip)
  next
    case True
    show ?thesis
    proof (cases "region_trace dip df k = [] \<or>
                  end_index (last (region_trace dip df k)) < int k - 10")
      case c: True
      have "region_trace dip df (Suc k) = region_trace dip df k @
              [\<lparr>start_index = int k, end_index = int k, depth = df k\<rparr>]"
        using True c by (simp add: record_region_def)
      then show ?thesis using region_inv_open [OF Suc True c] by simp
    next
      case c: False
      then have ne: "region_trace dip df k \<noteq> []"
        and far: "\<not> end_index (last (region_trace dip df k)) < int k - 10" by simp_all
      have "region_trace dip df (Suc k) = butlast (region_trace dip df k) @
              [(last (region_trace dip df k))\<lparr>end_index := int k,
                  depth := max (depth (last (region_trace dip df k))) (df k)\<rparr>]"
        using True c by (simp add: record_region_def)
      then show ?thesis using region_inv_extend [OF Suc True ne far] by simp
    qed
  qed
qed

lemma transit_fold_regions:
  assumes "k \<le> length time"
  shows "snd (fold (transit_step p d w) (take k (enumerate 0 time)) (flux, [])) =
         region_trace (\<lambda>i. in_transit p w (time ! i)) (\<lambda>i. depth_factor p d w (time ! i)) k"
  using assms
proof (induction k)
  case 0
  then show ?case by simp
next
  case (Suc k)
  then have k: "k < length (enumerate 0 time)" by simp
  have nth: "enumerate 0 time ! k = (k, time ! k)" using Suc.prems by (simp add: nth_enumerate_eq)
  obtain fl rs where st: "fold (transit_step p d w) (take k (enumerate 0 time)) (flux, []) = (fl, rs)"
    by (cases "fold (transit_step p d w) (take k (enumerate 0 time)) (flux, [])")
  have rs: "rs = region_trace (\<lambda>i. in_transit p w (time ! i)) (\<lambda>i. depth_factor p d w (time ! i)) k"
    using Suc st by simp
  have "fold (transit_step p d w) (take (Suc k) (enumerate 0 time)) (flux, []) =
        transit_step p d w (k, time ! k) (fl, rs)"
    using st nth by (simp add: take_Suc_conv_app_nth [OF k])
  moreover have "snd (transit_step p d w (k, time ! k) (fl, rs)) =
      (if in_transit p w (time ! k) then record_region rs k (depth_factor p d w (time ! k))
       else rs)"
    by (simp add: transit_step_def Let_def)
  ultimately show ?case using rs by simp
qed

lemma region_trace_cong:
  assumes "\<And>i. i < k \<Longrightarrow> dip i = dip' i" "\<And>i. i < k \<Longrightarrow> df i = df' i"
  shows "region_trace dip df k = region_trace dip' df' k"
  using assms by (induction k) simp_all

lemma region_inv_characterised:
  assumes "region_inv dip df n rs"
  shows "regions_characterised dip df n rs"
proof -
  have b: "0 \<le> start_index r \<and> start_index r \<le> end_index r \<and> end_index r < int n"
    if "r \<in> set rs" for r
    using assms that unfolding region_inv_def by fastforce
  have s: "sorted_wrt (\<lambda>x y. end_index x + 10 < start_index y) rs"
    using assms by (simp add: region_inv_def)
  have 1: "sorted_wrt (\<lambda>x y. end_index x < start_index y) rs"
    by (rule sorted_wrt_mono_rel [OF _ s]) simp
  have 2: "sorted_wrt (\<lambda>x y. start_index x < start_index y) rs"
    by (rule sorted_wrt_mono_rel [OF _ s]) (use b in fastforce)
  show ?thesis
    using assms b 1 2 by (simp add: regions_characterised_def list_all_iff)
qed

lemma transit_loop_regions:
  "snd (transit_loop p d w time flux) =
   region_trace (dip_at p w time) (\<lambda>i. depth_factor p d w (time ! i)) (length time)"
proof -
  have "snd (transit_loop p d w time flux) =
        region_trace (\<lambda>i. in_transit p w (time ! i)) (\<lambda>i. depth_factor p d w (time ! i))
          (length time)"
    using transit_fold_regions [of "length time" time p d w flux]
    by (simp add: transit_loop_def)
  also have "\<dots> = region_trace (dip_at p w time) (\<lambda>i. depth_factor p d w (time ! i)) (length time)"
    by (rule region_trace_cong) (simp_all add: dip_at_def)
  finally show ?thesis .
qed

lemma transit_fold_flux:
  assumes "k \<le> length time" "length flux = length time"
  shows "length (fst (fold (transit_step p d w) (take k (enumerate 0 time)) (flux, rs0))) = length flux \<and>
    (\<forall>i < length flux. fst (fold (transit_step p d w) (take k (enumerate 0 time)) (flux, rs0)) ! i =
        (if i < k \<and> in_transit p w (time ! i) then flux ! i - depth_factor p d w (time ! i)
         else flux ! i))"
  using assms(1)
proof (induction k)
  case 0
  then show ?case by simp
next
  case (Suc k)
  then have k: "k < length (enumerate 0 time)" by simp
  have nth: "enumerate 0 time ! k = (k, time ! k)" using Suc.prems by (simp add: nth_enumerate_eq)
  obtain fl rs where st: "fold (transit_step p d w) (take k (enumerate 0 time)) (flux, rs0) = (fl, rs)"
    by (cases "fold (transit_step p d w) (take k (enumerate 0 time)) (flux, rs0)")
  have len: "length fl = length flux"
    and old: "\<And>i. i < length flux \<Longrightarrow> fl ! i =
        (if i < k \<and> in_transit p w (time ! i) then flux ! i - depth_factor p d w (time ! i)
         else flux ! i)"
    using Suc st by simp_all
  have eq: "fold (transit_step p d w) (take (Suc k) (enumerate 0 time)) (flux, rs0) =
        transit_step p d w (k, time ! k) (fl, rs)"
    using st nth by (simp add: take_Suc_conv_app_nth [OF k])
  have step: "fst (transit_step p d w (k, time ! k) (fl, rs)) =
      (if in_transit p w (time ! k) then fl[k := fl ! k - depth_factor p d w (time ! k)] else fl)"
    by (simp add: transit_step_def Let_def)
  have kk: "k < length flux" using Suc.prems assms(2) by simp
  show ?case
  proof (intro conjI allI impI)
    show "length (fst (fold (transit_step p d w) (take (Suc k) (enumerate 0 time)) (flux, rs0))) = length flux"
      using eq step len by simp
  next
    fix i assume i: "i < length flux"
    show "fst (fold (transit_step p d w) (take (Suc k) (enumerate 0 time)) (flux, rs0)) ! i =
        (if i < Suc k \<and> in_transit p w (time ! i) then flux ! i - depth_factor p d w (time ! i)
         else flux ! i)"
    proof (cases "i = k")
      case True
      then show ?thesis using eq step len old [OF i] kk by simp
    next
      case False
      then show ?thesis using eq step len old [OF i] i by (auto simp: less_Suc_eq)
    qed
  qed
qed

lemma transit_loop_flux:
  assumes "length flux = length time" "i < length time"
  shows "fst (transit_loop p d w time flux) ! i =
         (if in_transit p w (time ! i) then flux ! i - depth_factor p d w (time ! i)
          else flux ! i)"
  using transit_fold_flux [of "length time" time flux p d w "[]"] assms
  by (simp add: transit_loop_def)

lemma length_transit_loop:
  "length (fst (transit_loop p d w time flux)) = length flux"
  by (simp add: transit_loop_def length_transit_fold)


lemma effective_depth_cases:
  "effective_depth transit_depth planet_radius_earth = Inl OverflowError \<or>
   (\<exists>d. effective_depth transit_depth planet_radius_earth = Inr d)"
  by (cases planet_radius_earth)
    (simp_all add: effective_depth_def calculate_realistic_depth_def Let_def)



lemma confirmed_depth_error:
  assumes "effective_depth transit_depth planet_radius_earth = Inl e"
  shows "generate_confirmed_planet R period_days transit_depth transit_duration num_points
           planet_radius_earth g = (Inl e, g)"
  using assms by (simp add: generate_confirmed_planet_def)

lemma generate_confirmed_planet_unfold:
  assumes "effective_depth transit_depth planet_radius_earth = Inr d" "0 \<le> num_points"
    "period_days \<noteq> 0"
  shows "generate_confirmed_planet R period_days transit_depth transit_duration num_points
           planet_radius_earth g =
         (Inr (linspace 0 30 (nat num_points),
               fst (transit_loop period_days d (min 0.04 (transit_duration / (period_days * 24)))
                      (linspace 0 30 (nat num_points))
                      (map2 (+) (replicate (nat num_points) 1)
                         (fst (normal R 0 0.0005 (nat num_points) g)))),
               snd (transit_loop period_days d (min 0.04 (transit_duration / (period_days * 24)))
                      (linspace 0 30 (nat num_points))
                      (map2 (+) (replicate (nat num_points) 1)
                         (fst (normal R 0 0.0005 (nat num_points) g))))),
          snd (normal R 0 0.0005 (nat num_points) g))"
  using assms
  by (simp add: generate_confirmed_planet_def Let_def split: prod.splits)

subsection \<open>The time grid\<close>


lemma normal_length: "normal R loc scale n g = (xs, g') \<Longrightarrow> length xs = n"
  using length_normal [of R loc scale n g] by simp

lemma length_noisy_flux:
  "length (map2 (+) (replicate n (1::real)) (fst (normal R loc scale n g))) = n"
  by (simp add: length_normal)

lemma length_eclipse_fold:
  "length time = length flux \<Longrightarrow> length (fold (eclipse_dip time) cs flux) = length flux"
  by (induction cs arbitrary: flux) (simp_all add: length_eclipse_dip)


lemma confirmed_zero_period:
  assumes "0 \<le> num_points" and d: "effective_depth transit_depth planet_radius_earth = Inr d"
  shows "fst (generate_confirmed_planet R 0 transit_depth transit_duration
                num_points planet_radius_earth g) = Inl ZeroDivisionError"
  using assms
  by (simp add: generate_confirmed_planet_def Let_def split: prod.splits)






subsection \<open>Transit regions, window and depth\<close>

lemma ratio_in_unit:
  "0 < h \<Longrightarrow> - h < x \<Longrightarrow> x < h \<Longrightarrow> - 1 < x / h \<and> x / h < (1::real)"
  by (simp add: pos_less_divide_eq pos_divide_less_eq)



text \<open>
  The flux the loop leaves at sample \<open>i\<close> of the grid, in exact arithmetic: the noisy
  baseline, less the depth factor when the phase of the sample lies strictly between
  \<open>0.5 - w / 2\<close> and \<open>0.5 + w / 2\<close>.
\<close>

lemma transit_flux_at:
  assumes "i < n"
  shows "fst (transit_loop p d w (linspace 0 30 n)
                (map2 (+) (replicate n 1) (fst (normal R 0 0.0005 n g)))) ! i =
         1 + fst (normal R 0 0.0005 n g) ! i -
           (if 0.5 - w / 2 < py_fmod (linspace 0 30 n ! i) p / p \<and>
               py_fmod (linspace 0 30 n ! i) p / p < 0.5 + w / 2
            then d * (1 - 0.1 * (1 - ((py_fmod (linspace 0 30 n ! i) p / p - 0.5) / (w / 2))\<^sup>2)) *
                 (1 - 0.2 * \<bar>(py_fmod (linspace 0 30 n ! i) p / p - 0.5) / (w / 2)\<bar>)
            else 0)"
proof -
  let ?time = "linspace 0 30 n"
  let ?noise = "fst (normal R 0 0.0005 n g)"
  let ?flux = "map2 (+) (replicate n 1) ?noise"
  have len: "length ?flux = length ?time" by (simp add: length_normal length_linspace)
  have i: "i < length ?time" using assms by (simp add: length_linspace)
  have f0: "?flux ! i = 1 + ?noise ! i" using assms by (simp add: length_normal)
  show ?thesis
    unfolding transit_loop_flux [OF len i] f0
    by (simp add: in_transit_def depth_factor_def relative_phase_def transit_phase_def Let_def)
qed

lemma window_margin:
  fixes phase w out base dec :: real
  assumes "out = base - (if 0.5 - w / 2 < phase \<and> phase < 0.5 + w / 2 then dec else 0)"
  shows "(0.5 - w / 2 + 1 / 10 ^ 9 \<le> phase \<and> phase \<le> 0.5 + w / 2 - 1 / 10 ^ 9 \<longrightarrow>
            out = base - dec \<and>
            - 1 < (phase - 0.5) / (w / 2) \<and> (phase - 0.5) / (w / 2) < 1) \<and>
         (phase \<le> 0.5 - w / 2 - 1 / 10 ^ 9 \<or> 0.5 + w / 2 + 1 / 10 ^ 9 \<le> phase \<longrightarrow>
            out = base)"
proof (intro conjI impI)
  assume a: "0.5 - w / 2 + 1 / 10 ^ 9 \<le> phase \<and> phase \<le> 0.5 + w / 2 - 1 / 10 ^ 9"
  have e: "(0::real) < 1 / 10 ^ 9" by simp
  from a e have s: "0.5 - w / 2 < phase" "phase < 0.5 + w / 2" by linarith+
  then show "out = base - dec" using assms by simp
  from s have w: "0 < w / 2" by linarith
  have "- (w / 2) < phase - 0.5" "phase - 0.5 < w / 2" using s by linarith+
  then have "- 1 < (phase - 0.5) / (w / 2) \<and> (phase - 0.5) / (w / 2) < 1"
    by (rule ratio_in_unit [OF w])
  then show "- 1 < (phase - 0.5) / (w / 2)" and "(phase - 0.5) / (w / 2) < 1" by simp_all
next
  assume a: "phase \<le> 0.5 - w / 2 - 1 / 10 ^ 9 \<or> 0.5 + w / 2 + 1 / 10 ^ 9 \<le> phase"
  have e: "(0::real) < 1 / 10 ^ 9" by simp
  from a e have "\<not> (0.5 - w / 2 < phase \<and> phase < 0.5 + w / 2)" by linarith
  then have "(if 0.5 - w / 2 < phase \<and> phase < 0.5 + w / 2 then dec else 0) = 0"
    by (rule if_not_P)
  then show "out = base" unfolding assms by (simp only: diff_zero)
qed

text \<open>
  Claim C5, as the code has it. In \<open>generate_confirmed_planet\<close> the value
  \<open>w = min(0.04, transit_duration / (period_days * 24))\<close> is the full width of the
  transit window, so the half-width is \<open>w / 2\<close>: the window is the phase interval from
  \<open>0.5 - w / 2\<close> to \<open>0.5 + w / 2\<close>. Which side of a window end a sample falls on is
  decided by the code on rounded doubles, so the statement leaves out the samples whose
  phase \<open>(time mod period_days) / period_days\<close> is within \<open>1e-9\<close> of a window end, and
  takes a period of at least 0.001 days in absolute value, for which the rounding of a
  sample time moves the phase by far less than that. A sample whose phase is inside
  the window has for flux its noisy baseline less
  \<open>depth * (1 - 0.1 * (1 - rp\<^sup>2)) * (1 - 0.2 * |rp|)\<close>, where
  \<open>rp = (phase - 0.5) / (w / 2)\<close> lies strictly between -1 and 1; a sample whose phase is
  outside the window has for flux its noisy baseline.
\<close>

theorem transit_window_and_decrement:
  assumes "1 / 1000 \<le> \<bar>period_days\<bar>" "0 \<le> num_points"
    "effective_depth transit_depth planet_radius_earth = Inr d" "i < nat num_points"
  shows "returned (generate_confirmed_planet R period_days transit_depth transit_duration
                     num_points planet_radius_earth g)
           (\<lambda>c. case c of (time, flux, rs) \<Rightarrow>
              (let w = min 0.04 (transit_duration / (period_days * 24));
                   phase = py_fmod (time ! i) period_days / period_days;
                   rp = (phase - 0.5) / (w / 2);
                   baseline = 1 + fst (normal R 0 0.0005 (nat num_points) g) ! i
               in (0.5 - w / 2 + 1 / 10 ^ 9 \<le> phase \<and> phase \<le> 0.5 + w / 2 - 1 / 10 ^ 9 \<longrightarrow>
                     flux ! i = baseline - d * (1 - 0.1 * (1 - rp\<^sup>2)) * (1 - 0.2 * \<bar>rp\<bar>) \<and>
                     - 1 < rp \<and> rp < 1) \<and>
                  (phase \<le> 0.5 - w / 2 - 1 / 10 ^ 9 \<or> 0.5 + w / 2 + 1 / 10 ^ 9 \<le> phase \<longrightarrow>
                     flux ! i = baseline)))"
proof -
  let ?n = "nat num_points"
  let ?w = "min 0.04 (transit_duration / (period_days * 24))"
  let ?time = "linspace 0 30 ?n"
  let ?noise = "fst (normal R 0 0.0005 ?n g)"
  let ?flux = "map2 (+) (replicate ?n 1) ?noise"
  let ?phase = "py_fmod (?time ! i) period_days / period_days"
  let ?rp = "(?phase - 0.5) / (?w / 2)"
  let ?out = "fst (transit_loop period_days d ?w ?time ?flux) ! i"
  have p: "period_days \<noteq> 0" using assms(1) by auto
  have fl: "?out = 1 + ?noise ! i -
        (if 0.5 - ?w / 2 < ?phase \<and> ?phase < 0.5 + ?w / 2
         then d * (1 - 0.1 * (1 - ?rp\<^sup>2)) * (1 - 0.2 * \<bar>?rp\<bar>) else 0)"
    by (rule transit_flux_at [OF assms(4)])
  show ?thesis
    unfolding generate_confirmed_planet_unfold [OF assms(3) assms(2) p] returned_def
    apply (simp only: fst_conv sum.case prod.case Let_def)
    apply (rule window_margin [OF fl])
    done
qed

text \<open>
  The statement at sample 5 of a ten-day period sampled once a day: the sample is at
  day 5, at phase 0.5, the centre of the window, where the decrement is 0.9 times the
  depth.
\<close>

theorem transit_window_and_decrement_witness:
  "(1 / 1000 :: real) \<le> \<bar>10\<bar> \<and> (0::int) \<le> 31 \<and> effective_depth 0.01 None = Inr 0.01 \<and>
   (5::nat) < nat 31 \<and>
   returned (generate_confirmed_planet quiet_runtime 10 0.01 24 31 None 0)
     (\<lambda>c. case c of (time, flux, rs) \<Rightarrow>
        py_fmod (time ! 5) 10 / 10 = 1 / 2 \<and>
        flux ! 5 = 1 + fst (normal quiet_runtime 0 0.0005 (nat 31) 0) ! 5 - 9 / 1000)"
proof -
  have h1: "(1 / 1000 :: real) \<le> \<bar>10\<bar>" and h2: "(0::int) \<le> 31"
    and h3: "effective_depth 0.01 None = Inr 0.01" and h4: "(5::nat) < nat 31"
    by (simp_all add: effective_depth_def)
  have p: "(10::real) \<noteq> 0" by simp
  have t: "linspace 0 30 31 ! 5 = 5" by (simp add: linspace_nth)
  have ph: "py_fmod 5 10 = (5::real)" by (simp add: py_fmod_def)
  show ?thesis
    using h1 h2 h3 h4 transit_window_and_decrement [OF h1 h2 h3 h4, of quiet_runtime 24 0]
    unfolding generate_confirmed_planet_unfold [OF h3 h2 p] returned_def
    by (simp add: t ph Let_def)
qed

text \<open>
  Claim C5 as the specification states it fails. With a 32-day period, a 36-hour
  transit and three samples, the sample at day 15 has phase 0.46875, inside the window
  \<open>[0.46, 0.54)\<close> of the specification; the code leaves its flux at the baseline and
  records no region, since its window is \<open>(0.48, 0.52)\<close>.
\<close>

theorem spec_window_counterexample:
  "spec_in_transit 32 36 15 \<and>
   generate_confirmed_planet quiet_runtime 32 0.01 36 3 None 0 =
     (Inr ([0, 15, 30], [1, 1, 1], []), 3)"
  by (simp add: spec_in_transit_def generate_confirmed_planet_def effective_depth_def
        quiet_runtime_def linspace_def transit_loop_def transit_step_def in_transit_def
        transit_phase_def py_fmod_def Let_def enumerate_eq_zip
        upt_rec [of 0] upt_rec [of 1] upt_rec [of 2] numeral_3_eq_3)




section \<open>Properties of the prediction service and of the explanation engine\<close>

subsection \<open>The classification resolver\<close>

lemma generate_candidate_returns:
  "0 \<le> n \<Longrightarrow> \<exists>lc g'. generate_candidate R n g = (Inr lc, g')"
  by (simp add: generate_candidate_def Let_def case_prod_beta)

lemma generate_false_positive_returns:
  "0 \<le> n \<Longrightarrow> \<exists>lc g'. generate_false_positive R n a g = (Inr lc, g')"
  by (simp add: generate_false_positive_def Let_def case_prod_beta)



lemma resolved_candidate:
  assumes "s_truth sample = ''candidate''"
  shows "resolved (synthesize R sample g) =
         Some (if py_hash R (s_id sample) mod 100 < 70
               then (''exoplanet'', 0.60 + real_of_int (py_hash R (s_id sample) mod 100 mod 20) / 100)
               else (''no_planet'', 0.55 + real_of_int (py_hash R (s_id sample) mod 100 mod 15) / 100))"
proof -
  obtain lc g' where "generate_candidate R 1000 g = (Inr lc, g')"
    using generate_candidate_returns [of 1000] by (metis zero_le_numeral)
  then show ?thesis using assms by (simp add: synthesize_def resolved_def Let_def)
qed

lemma resolved_other:
  assumes "s_truth sample \<noteq> ''confirmed''" "s_truth sample \<noteq> ''candidate''"
  shows "resolved (synthesize R sample g) =
         Some (''no_planet'', 0.85 + real_of_int (py_hash R (s_id sample) mod 12) / 100)"
proof -
  obtain lc g' where "generate_false_positive R 1000
      (case param_anomaly_type (s_params sample) of None \<Rightarrow> ''noise'' | Some a \<Rightarrow> a) g = (Inr lc, g')"
    using generate_false_positive_returns [of 1000] by (metis zero_le_numeral)
  then show ?thesis using assms by (simp add: synthesize_def resolved_def Let_def)
qed





lemma resolved_value:
  assumes "resolved (synthesize R s g) \<noteq> None"
  shows "resolved (synthesize R s g) = Some (resolver_value (s_truth s) (py_hash R (s_id s)))"
proof (cases "s_truth s = ''confirmed''")
  case True
  let ?gen = "generate_confirmed_planet R
      (case param_period_days (s_params s) of None \<Rightarrow> 10 | Some p \<Rightarrow> p)
      (case param_transit_depth (s_params s) of None \<Rightarrow> 0.01 | Some d \<Rightarrow> d)
      (case param_transit_duration (s_params s) of None \<Rightarrow> 3 | Some t \<Rightarrow> t)
      1000 (param_planet_radius (s_params s)) g"
  obtain res g' where gen: "?gen = (res, g')" by (cases ?gen)
  show ?thesis
  proof (cases res)
    case (Inl e)
    then have "synthesize R s g = (Inl e, g')"
      unfolding synthesize_def Let_def using True gen by simp
    then have "resolved (synthesize R s g) = None"
      by (simp add: resolved_def)
    then show ?thesis using assms by simp
  next
    case (Inr lc)
    then have "synthesize R s g =
        (Inr (lc, ''exoplanet'', 0.90 + real_of_int (py_hash R (s_id s) mod 8) / 100), g')"
      unfolding synthesize_def Let_def using True gen by simp
    then show ?thesis using True by (simp add: resolved_def resolver_value_def)
  qed
next
  case False
  then show ?thesis
    by (cases "s_truth s = ''candidate''")
      (simp_all add: resolved_candidate resolved_other resolver_value_def)
qed

text \<open>
  The part of claim C2 that holds. The label and the confidence are a function of the
  truth label and of the value the running process's \<open>hash\<close> gives the identifier: two
  runs agree on them whenever the truth labels agree and the two hash functions agree
  on the identifier, whatever the generator states, the catalog parameters and the
  light curves are.
\<close>

theorem resolver_depends_on_hash_only:
  assumes "s_truth s1 = s_truth s2" "py_hash R1 (s_id s1) = py_hash R2 (s_id s2)"
    "resolved (synthesize R1 s1 g1) \<noteq> None" "resolved (synthesize R2 s2 g2) \<noteq> None"
  shows "resolved (synthesize R1 s1 g1) = resolved (synthesize R2 s2 g2)"
proof -
  have "resolved (synthesize R1 s1 g1) =
        Some (resolver_value (s_truth s1) (py_hash R1 (s_id s1)))"
    by (rule resolved_value [OF assms(3)])
  also have "\<dots> = Some (resolver_value (s_truth s2) (py_hash R2 (s_id s2)))"
    using assms(1,2) by simp
  also have "\<dots> = resolved (synthesize R2 s2 g2)"
    by (rule resolved_value [OF assms(4), symmetric])
  finally show ?thesis .
qed

text \<open>
  The statement at the candidate \<open>koi-5123\<close>, for two runtimes with different hash
  functions that agree on this identifier, and different generator states.
\<close>

theorem resolver_depends_on_hash_only_witness:
  "s_truth koi_5123 = s_truth koi_5123 \<and>
   py_hash quiet_runtime (s_id koi_5123) = py_hash (run_with_hash (\<lambda>s. 8)) (s_id koi_5123) \<and>
   resolved (synthesize quiet_runtime koi_5123 0) \<noteq> None \<and>
   resolved (synthesize (run_with_hash (\<lambda>s. 8)) koi_5123 7) \<noteq> None \<and>
   resolved (synthesize quiet_runtime koi_5123 0) =
     resolved (synthesize (run_with_hash (\<lambda>s. 8)) koi_5123 7)"
proof -
  have t: "s_truth koi_5123 = ''candidate''" by (simp add: koi_5123_def)
  have h1: "s_truth koi_5123 = s_truth koi_5123" by simp
  have h2: "py_hash quiet_runtime (s_id koi_5123) =
            py_hash (run_with_hash (\<lambda>s. 8)) (s_id koi_5123)"
    by (simp add: quiet_runtime_def run_with_hash_def koi_5123_def)
  have h3: "resolved (synthesize quiet_runtime koi_5123 0) \<noteq> None"
    by (simp add: resolved_candidate [OF t])
  have h4: "resolved (synthesize (run_with_hash (\<lambda>s. 8)) koi_5123 7) \<noteq> None"
    by (simp add: resolved_candidate [OF t])
  show ?thesis
    using h1 h2 h3 h4 resolver_depends_on_hash_only [OF h1 h2 h3 h4] by blast
qed

text \<open>
  Claim C2 fails on the code. The label and the confidence are computed from the
  built-in \<open>hash\<close> of the identifier, which CPython keys per process: two runs of the
  program give the same identifier different hashes. The two hash functions below give
  \<open>koi-5123\<close> the values CPython 3.11 gives it under \<open>PYTHONHASHSEED=1\<close> and
  \<open>PYTHONHASHSEED=8\<close>; the two runs classify the same candidate as \<open>exoplanet\<close> with
  confidence 0.71 and as \<open>no_planet\<close> with confidence 0.59.
\<close>

theorem hash_seed_counterexample:
  "resolved (synthesize (run_with_hash hash_seed_1) koi_5123 0) = Some (''exoplanet'', 0.71) \<and>
   resolved (synthesize (run_with_hash hash_seed_8) koi_5123 0) = Some (''no_planet'', 0.59)"
proof -
  have t: "s_truth koi_5123 = ''candidate''" by (simp add: koi_5123_def)
  have i: "s_id koi_5123 = ''koi-5123''" by (simp add: koi_5123_def)
  show ?thesis
    unfolding resolved_candidate [OF t] i
    by (simp add: run_with_hash_def hash_seed_1_def hash_seed_8_def)
qed

subsection \<open>Determinism of the explanation\<close>

text \<open>
  Claim C10. \<open>explain_prediction\<close> reseeds the generator before it draws the background
  noise, so its result, and the generator state it leaves, do not depend on the state
  the generator was in: two calls with the same light curve, time points,
  classification, confidence and transit regions return the same explanation.
\<close>

theorem explain_prediction_deterministic:
  "explain_prediction R light_curve time_points classification confidence transit_regions g1 =
   explain_prediction R light_curve time_points classification confidence transit_regions g2"
  unfolding explain_prediction_def generate_synthetic_shap_def by (rule refl)

subsection \<open>NaN propagation, the Gaussian filter and the region scan\<close>

lemma np_add_NaN_right [simp]: "np_add a NaN = NaN"
  by (cases a) simp_all

lemma fold_np_add_NaN:
  "fold (\<lambda>k acc. np_add acc (f k)) ks NaN = NaN"
  by (induction ks) simp_all

lemma fold_np_add_has_NaN:
  assumes "k \<in> set ks" "f k = NaN"
  shows "fold (\<lambda>k acc. np_add acc (f k)) ks a = NaN"
  using assms
proof (induction ks arbitrary: a)
  case Nil
  then show ?case by simp
next
  case (Cons x ks)
  show ?case
  proof (cases "x = k")
    case True
    then show ?thesis using Cons.prems by (simp add: fold_np_add_NaN)
  next
    case False
    then show ?thesis using Cons by simp
  qed
qed

lemma fold_np_add_Fin:
  "fold (\<lambda>k acc. np_add acc (np_mul (Fin (c k)) (Fin (v k)))) ks (Fin a) =
   Fin (a + (\<Sum>k\<leftarrow>ks. c k * v k))"
  by (induction ks arbitrary: a) (simp_all add: algebra_simps)

lemma fold_np_add_Fin0:
  "fold (\<lambda>k acc. np_add acc (np_mul (Fin (c k)) (Fin (v k)))) ks (Fin 0) =
   Fin (\<Sum>k\<leftarrow>ks. c k * v k)"
  using fold_np_add_Fin [of c v ks 0] by simp

lemma sum_list_divide:
  fixes f :: "'a \<Rightarrow> real"
  shows "(\<Sum>k\<leftarrow>ks. f k / c) = (\<Sum>k\<leftarrow>ks. f k) / c"
  by (induction ks) (simp_all add: add_divide_distrib)

lemma fold_np_add_cong:
  assumes "\<And>k. k \<in> set ks \<Longrightarrow> f k = h k"
  shows "fold (\<lambda>k acc. np_add acc (f k)) ks a = fold (\<lambda>k acc. np_add acc (h k)) ks a"
  using assms by (induction ks arbitrary: a) simp_all

lemma length_gaussian_filter1d [simp]: "length (gaussian_filter1d xs) = length xs"
  by (simp add: gaussian_filter1d_def)

lemma gaussian_filter1d_nth:
  "i < length xs \<Longrightarrow> gaussian_filter1d xs ! i =
     fold (\<lambda>k acc. np_add acc
             (np_mul (Fin (gauss_kernel k)) (xs ! reflect_index (length xs) (int i + k))))
       [- 6..6] (Fin 0)"
  by (simp add: gaussian_filter1d_def)

lemma np_mul_Fin_NaN [simp]: "np_mul a NaN = NaN"
  by (cases a) simp_all

lemma gaussian_filter1d_NaN:
  assumes "i < length xs" "k \<in> set [- 6..6]" "xs ! reflect_index (length xs) (int i + k) = NaN"
  shows "gaussian_filter1d xs ! i = NaN"
  unfolding gaussian_filter1d_nth [OF assms(1)]
  by (rule fold_np_add_has_NaN [OF assms(2)]) (simp add: assms(3))

lemma gauss_phi_pos: "0 < gauss_phi k"
  by (simp add: gauss_phi_def)

lemma gauss_phi_sum_pos: "0 < (\<Sum>j\<leftarrow>[- 6..6]. gauss_phi j)"
proof -
  have "(0::int) \<in> set [- 6..6]" by simp
  then have "gauss_phi 0 \<le> (\<Sum>j\<leftarrow>[- 6..6]. gauss_phi j)"
    by (intro member_le_sum_list) (auto intro: less_imp_le gauss_phi_pos)
  then show ?thesis using gauss_phi_pos [of 0] by linarith
qed

lemma gauss_kernel_nonneg: "0 \<le> gauss_kernel k"
  using gauss_phi_pos [of k] gauss_phi_sum_pos by (simp add: gauss_kernel_def)

lemma gauss_kernel_sum: "(\<Sum>k\<leftarrow>[- 6..6]. gauss_kernel k) = 1"
proof -
  have "(\<Sum>k\<leftarrow>[- 6..6]. gauss_kernel k) =
        (\<Sum>k\<leftarrow>[- 6..6]. gauss_phi k) / (\<Sum>j\<leftarrow>[- 6..6]. gauss_phi j)"
    unfolding gauss_kernel_def by (rule sum_list_divide)
  then show ?thesis using gauss_phi_sum_pos by simp
qed

lemma weighted_average_lower:
  fixes w v :: "int \<Rightarrow> real"
  assumes "\<And>k. k \<in> set ks \<Longrightarrow> c \<le> v k" "\<And>k. 0 \<le> w k"
  shows "c * (\<Sum>k\<leftarrow>ks. w k) \<le> (\<Sum>k\<leftarrow>ks. w k * v k)"
  using assms(1)
proof (induction ks)
  case Nil
  then show ?case by simp
next
  case (Cons x ks)
  have "w x * c \<le> w x * v x" using Cons.prems assms(2) by (simp add: mult_left_mono)
  moreover have "c * (\<Sum>k\<leftarrow>ks. w k) \<le> (\<Sum>k\<leftarrow>ks. w k * v k)" using Cons by simp
  ultimately show ?case by (simp add: algebra_simps)
qed

lemma gaussian_filter1d_lower:
  assumes "i < length xs"
    "\<And>k. k \<in> set [- 6..6] \<Longrightarrow> \<exists>y. xs ! reflect_index (length xs) (int i + k) = Fin y \<and> c \<le> y"
  shows "\<exists>y. gaussian_filter1d xs ! i = Fin y \<and> c \<le> y"
proof -
  define v where "v k = (case xs ! reflect_index (length xs) (int i + k) of Fin y \<Rightarrow> y | _ \<Rightarrow> 0)" for k
  have v: "xs ! reflect_index (length xs) (int i + k) = Fin (v k) \<and> c \<le> v k"
    if "k \<in> set [- 6..6]" for k
    using assms(2) [OF that] by (auto simp: v_def)
  have "gaussian_filter1d xs ! i =
        fold (\<lambda>k acc. np_add acc (np_mul (Fin (gauss_kernel k)) (Fin (v k)))) [- 6..6] (Fin 0)"
    unfolding gaussian_filter1d_nth [OF assms(1)]
    by (rule fold_np_add_cong) (simp add: v)
  also have "\<dots> = Fin (\<Sum>k\<leftarrow>[- 6..6]. gauss_kernel k * v k)"
    by (rule fold_np_add_Fin0)
  finally have eq: "gaussian_filter1d xs ! i = Fin (\<Sum>k\<leftarrow>[- 6..6]. gauss_kernel k * v k)" .
  have "c * (\<Sum>k\<leftarrow>[- 6..6]. gauss_kernel k) \<le> (\<Sum>k\<leftarrow>[- 6..6]. gauss_kernel k * v k)"
    by (rule weighted_average_lower) (use v gauss_kernel_nonneg in auto)
  then have "c \<le> (\<Sum>k\<leftarrow>[- 6..6]. gauss_kernel k * v k)"
    by (simp only: gauss_kernel_sum mult_1_right)
  then show ?thesis using eq by blast
qed

lemma np_maximum_NaN [simp]: "np_maximum NaN b = NaN" "np_maximum a NaN = NaN"
  by (simp_all add: np_maximum_def)

lemma fold_np_maximum_NaN: "fold np_maximum xs NaN = NaN"
  by (induction xs) simp_all

lemma fold_np_maximum_has_NaN:
  "NaN \<in> set xs \<Longrightarrow> fold np_maximum xs a = NaN"
  by (induction xs arbitrary: a) (auto simp: fold_np_maximum_NaN)

lemma np_amax_NaN:
  assumes "NaN \<in> set xs"
  shows "np_amax xs = NaN"
proof (cases xs)
  case Nil
  then show ?thesis using assms by simp
next
  case (Cons x ys)
  then show ?thesis
    using assms by (cases "x = NaN") (auto simp: np_amax_def fold_np_maximum_NaN fold_np_maximum_has_NaN)
qed

lemma rescale_importance_NaN:
  assumes "NaN \<in> set xs"
  shows "rescale_importance xs = xs"
proof -
  have "NaN \<in> set (map np_abs xs)" using assms by force
  then have "np_amax (map np_abs xs) = NaN" by (rule np_amax_NaN)
  then show ?thesis by (simp add: rescale_importance_def)
qed

lemma region_scan_returns:
  assumes "k + length msk \<le> length tp" "inr \<longrightarrow> st < k"
  shows "\<exists>s'. region_scan fi tp (enumerate k msk) (rs, inr, st) = Inr s'"
  using assms
proof (induction msk arbitrary: k rs inr st)
  case Nil
  then show ?case by simp
next
  case (Cons b msk)
  have len: "Suc k + length msk \<le> length tp" using Cons.prems(1) by simp
  consider (opened) "b \<and> \<not> inr" | (closed) "\<not> b \<and> inr" | (same) "\<not> (b \<and> \<not> inr) \<and> \<not> (\<not> b \<and> inr)"
    by blast
  then show ?case
  proof cases
    case opened
    then have "region_scan_step fi tp (k, b) (rs, inr, st) = Inr (rs, True, k)"
      by (simp add: region_scan_step_def)
    moreover have "\<exists>s'. region_scan fi tp (enumerate (Suc k) msk) (rs, True, k) = Inr s'"
      by (rule Cons.IH [OF len]) simp
    ultimately show ?thesis by simp
  next
    case closed
    then have st: "st < k" using Cons.prems(2) by simp
    then have i1: "py_index tp st = Inr (tp ! st)" and i2: "py_index tp (k - 1) = Inr (tp ! (k - 1))"
      using Cons.prems(1) by (simp_all add: py_index_def)
    have "\<exists>rs'. region_scan_step fi tp (k, b) (rs, inr, st) = Inr (rs', False, st)"
      using closed i1 i2 by (simp add: region_scan_step_def Let_def)
    then obtain rs' where step: "region_scan_step fi tp (k, b) (rs, inr, st) = Inr (rs', False, st)"
      by blast
    have "\<exists>s'. region_scan fi tp (enumerate (Suc k) msk) (rs', False, st) = Inr s'"
      by (rule Cons.IH [OF len]) simp
    then show ?thesis using step by simp
  next
    case same
    then have "region_scan_step fi tp (k, b) (rs, inr, st) = Inr (rs, inr, st)"
      by (auto simp: region_scan_step_def)
    moreover have "\<exists>s'. region_scan fi tp (enumerate (Suc k) msk) (rs, inr, st) = Inr s'"
      by (rule Cons.IH [OF len]) (use Cons.prems(2) in auto)
    ultimately show ?thesis by simp
  qed
qed

lemma identify_top_regions_returns:
  assumes "length fi \<le> length tp"
  shows "\<exists>rs. identify_top_regions fi tp top_k = Inr rs"
proof -
  let ?msk = "map (\<lambda>a. percentile (map abs fi) 80 < a) (map abs fi)"
  have "\<exists>s'. region_scan fi tp (enumerate 0 ?msk) ([], False, 0) = Inr s'"
    by (rule region_scan_returns) (use assms in simp_all)
  then obtain rs inr st where "region_scan fi tp (enumerate 0 ?msk) ([], False, 0) = Inr (rs, inr, st)"
    by (metis prod_cases3)
  then show ?thesis by (simp add: identify_top_regions_def Let_def)
qed

text \<open>
  The part of claim C8 on the order: the regions returned are at most \<open>top_k\<close> and sorted
  by descending absolute importance.
\<close>

lemma identify_top_regions_sorted:
  assumes "identify_top_regions fi tp top_k = Inr rs"
  shows "length rs \<le> top_k \<and> sorted_wrt (\<lambda>a b. \<bar>importance b\<bar> \<le> \<bar>importance a\<bar>) rs"
proof -
  from assms obtain regions where rs: "rs = take top_k (sort_key (\<lambda>x. - \<bar>importance x\<bar>) regions)"
    by (auto simp: identify_top_regions_def Let_def split: sum.splits prod.splits)
  have "sorted (map (\<lambda>x. - \<bar>importance x\<bar>) (sort_key (\<lambda>x. - \<bar>importance x\<bar>) regions))"
    by (rule sorted_sort_key)
  then have "sorted_wrt (\<lambda>a b. \<bar>importance b\<bar> \<le> \<bar>importance a\<bar>)
               (sort_key (\<lambda>x. - \<bar>importance x\<bar>) regions)"
    by (simp add: sorted_map)
  then have "sorted_wrt (\<lambda>a b. \<bar>importance b\<bar> \<le> \<bar>importance a\<bar>) rs"
    unfolding rs by (rule sorted_wrt_take)
  then show ?thesis using rs by simp
qed

lemma normal_bounded:
  assumes "\<And>g. \<bar>fst (rng_gauss R g)\<bar> \<le> B" "0 \<le> s"
  shows "x \<in> set (fst (normal R 0 s n g)) \<Longrightarrow> \<bar>x\<bar> \<le> s * B"
proof (induction n arbitrary: g x)
  case 0
  then show ?case by simp
next
  case (Suc n)
  obtain z g1 where z: "rng_gauss R g = (z, g1)" by (cases "rng_gauss R g")
  obtain zs g2 where zs: "normal R 0 s n g1 = (zs, g2)" by (cases "normal R 0 s n g1")
  have "\<bar>z\<bar> \<le> B" using assms(1) [of g] z by simp
  then have "\<bar>s * z\<bar> \<le> s * B" using assms(2) by (simp add: abs_mult mult_left_mono)
  moreover have "\<And>y. y \<in> set zs \<Longrightarrow> \<bar>y\<bar> \<le> s * B" using Suc.IH [where g = g1] zs by simp
  ultimately show ?case using Suc.prems z zs by auto
qed

lemma length_gaussian_weights [simp]:
  "length (gaussian_weights time_array c w) = length time_array"
  by (simp add: gaussian_weights_def)

lemma inplace_same_length:
  "length b = length a \<Longrightarrow> inplace f a b = Inr (map2 f a b)"
  by (simp add: inplace_def)

subsection \<open>A transit region of a single sample\<close>

lemma demo_time_nth: "j < 20 \<Longrightarrow> demo_time ! j = 3 / 100 * real j"
  by (simp add: demo_time_def)

lemma length_demo_time [simp]: "length demo_time = 20"
  by (simp add: demo_time_def)

lemma demo_weights_single:
  assumes "j < 20"
  shows "gaussian_weights demo_time 0 0 ! j = (if j = 0 then NaN else Fin 0)"
  using assms by (simp add: gaussian_weights_def demo_time_nth)

lemma exp_lower:
  fixes x :: real
  assumes "- (1 / 20) \<le> x"
  shows "19 / 20 \<le> exp x"
  using exp_ge_add_one_self [of x] assms by linarith

lemma demo_weights_wide:
  assumes "j < 20"
  shows "\<exists>e. gaussian_weights demo_time (21 / 50) 9 ! j = Fin e \<and> 19 / 20 \<le> e"
proof -
  let ?d = "\<bar>3 / 100 * real j - 21 / 50\<bar>"
  let ?r = "?d / (27 / 20)"
  have "0 \<le> real j" "real j \<le> 19" using assms by simp_all
  then have d: "?d \<le> 21 / 50" by linarith
  have "?r \<le> (21 / 50) / (27 / 20)" using d by (rule divide_right_mono) simp
  moreover have "0 \<le> ?r" by simp
  ultimately have "?r * ?r \<le> ((21 / 50) / (27 / 20)) * ((21 / 50) / (27 / 20))"
    by (intro mult_mono) simp_all
  also have "\<dots> \<le> (1 / 10 :: real)" by simp
  finally have "- (1 / 20) \<le> - (1 / 2) * (?r * ?r)" by linarith
  then have "19 / 20 \<le> exp (- (1 / 2) * (?r * ?r))" by (rule exp_lower)
  moreover have "gaussian_weights demo_time (21 / 50) 9 ! j = Fin (exp (- (1 / 2) * (?r * ?r)))"
    using assms by (simp add: gaussian_weights_def demo_time_nth Let_def)
  ultimately show ?thesis by blast
qed

lemma demo_region_weights:
  "region_weights demo_time \<lparr>start_index = 0, end_index = 0, depth = 1 / 100\<rparr> =
     Inr (gaussian_weights demo_time 0 0)"
  "region_weights demo_time \<lparr>start_index = 11, end_index = 17, depth = 1 / 100\<rparr> =
     Inr (gaussian_weights demo_time (21 / 50) 9)"
  by (simp_all add: region_weights_def np_index_def demo_time_nth Let_def)

lemma demo_exoplanet_regions:
  assumes "length noise = 20"
  shows "\<exists>fi. exoplanet_regions demo_time (9 / 10) 0 demo_regions (map Fin noise) = Inr fi \<and>
           length fi = 20 \<and> fi ! 0 = NaN \<and>
           (\<forall>j. 0 < j \<and> j < 20 \<longrightarrow> (\<exists>y. fi ! j = Fin y \<and> noise ! j + 171 / 250 \<le> y))"
proof -
  let ?a = "map (\<lambda>w. np_mul w (Fin (4 / 5))) (gaussian_weights demo_time 0 0)"
  let ?b = "map (\<lambda>w. np_mul w (Fin (18 / 25))) (gaussian_weights demo_time (21 / 50) 9)"
  let ?fi1 = "map2 np_add (map Fin noise) ?a"
  let ?fi = "map2 np_add ?fi1 ?b"
  have s1: "min (1 / 100 * 600 * (9 / 10)) 0.8 * 0.9 ^ 0 = (4 / 5 :: real)"
    and s2: "min (1 / 100 * 600 * (9 / 10)) 0.8 * 0.9 ^ Suc 0 = (18 / 25 :: real)"
    by simp_all
  have i1: "inplace np_add (map Fin noise) ?a = Inr ?fi1"
    by (rule inplace_same_length) (simp add: assms)
  have i2: "inplace np_add ?fi1 ?b = Inr ?fi"
    by (rule inplace_same_length) (simp add: assms)
  have run: "exoplanet_regions demo_time (9 / 10) 0 demo_regions (map Fin noise) = Inr ?fi"
    unfolding demo_regions_def
    by (simp add: demo_region_weights Let_def s1 s2 i1 i2 del: min_less_iff_conj)
  have len: "length ?fi = 20" by (simp add: assms)
  have nth: "?fi ! j = np_add (np_add (Fin (noise ! j))
                 (np_mul (gaussian_weights demo_time 0 0 ! j) (Fin (4 / 5))))
               (np_mul (gaussian_weights demo_time (21 / 50) 9 ! j) (Fin (18 / 25)))"
    if "j < 20" for j
    using that by (simp add: assms)
  have z: "?fi ! 0 = NaN"
    by (simp add: nth demo_weights_single del: nth_map nth_zip)
  have pos: "\<exists>y. ?fi ! j = Fin y \<and> noise ! j + 171 / 250 \<le> y" if j: "0 < j" "j < 20" for j
  proof -
    obtain e where e: "gaussian_weights demo_time (21 / 50) 9 ! j = Fin e" "19 / 20 \<le> e"
      using demo_weights_wide [OF j(2)] by blast
    have "?fi ! j = Fin (noise ! j + e * (18 / 25))"
      unfolding nth [OF j(2)] using j e(1) by (simp add: demo_weights_single)
    moreover have "noise ! j + 171 / 250 \<le> noise ! j + e * (18 / 25)" using e(2) by simp
    ultimately show ?thesis by blast
  qed
  show ?thesis using run len z pos by blast
qed

lemma map2_replicate_right:
  "length xs = n \<Longrightarrow> map2 f xs (replicate n c) = map (\<lambda>x. f x c) xs"
  by (intro nth_equalityI) simp_all

lemma sort_replicate: "sort (replicate n (x::real)) = replicate n x"
  by (simp add: sorted_sort_id)

lemma median_demo_flux: "median demo_flux = 1"
  by (simp add: median_def demo_flux_def sort_replicate Let_def)

lemma percentile_zeros: "percentile (replicate 20 0) 80 = 0"
  by (simp add: percentile_def sort_replicate Let_def)

lemma demo_importance:
  assumes "length noise = 20"
  shows "\<exists>fi pv. exoplanet_importance demo_flux demo_time (9 / 10) demo_regions (map Fin noise) =
             Inr (fi, pv) \<and>
           length fi = 20 \<and> fi ! 0 = NaN \<and>
           (\<forall>j. 0 < j \<and> j < 20 \<longrightarrow> (\<exists>y. fi ! j = Fin y \<and> noise ! j + 351 / 500 \<le> y))"
proof -
  obtain fi1 where fi1: "exoplanet_regions demo_time (9 / 10) 0 demo_regions (map Fin noise) = Inr fi1"
      "length fi1 = 20" "fi1 ! 0 = NaN"
      "\<And>j. 0 < j \<Longrightarrow> j < 20 \<Longrightarrow> \<exists>y. fi1 ! j = Fin y \<and> noise ! j + 171 / 250 \<le> y"
    using demo_exoplanet_regions [OF assms] by blast
  let ?fi3 = "map (\<lambda>x. np_add x (Fin (9 / 500))) fi1"
  have fn: "map (\<lambda>f. \<bar>f - median demo_flux\<bar>) demo_flux = replicate 20 0"
    unfolding median_demo_flux by (simp add: demo_flux_def)
  have bl: "map (\<lambda>f. 1.0 - \<bar>f - 1.0\<bar>) demo_flux = replicate 20 1"
    by (simp add: demo_flux_def)
  have ne: "demo_flux \<noteq> []" by (simp add: demo_flux_def)
  have run: "exoplanet_importance demo_flux demo_time (9 / 10) demo_regions (map Fin noise) =
        Inr (?fi3, np_add (Fin 0.5) (np_mean ?fi3))"
    unfolding exoplanet_importance_def fi1(1) Let_def fn bl percentile_zeros
    using ne fi1(2) by (simp add: map2_replicate_right)
  have z: "?fi3 ! 0 = NaN" using fi1(2,3) by simp
  have pos: "\<exists>y. ?fi3 ! j = Fin y \<and> noise ! j + 351 / 500 \<le> y" if j: "0 < j" "j < 20" for j
  proof -
    obtain y where y: "fi1 ! j = Fin y" "noise ! j + 171 / 250 \<le> y" using fi1(4) [OF j] by blast
    have "?fi3 ! j = Fin (y + 9 / 500)" using j fi1(2) y(1) by simp
    moreover have "noise ! j + 351 / 500 \<le> y + 9 / 500" using y(2) by simp
    ultimately show ?thesis by blast
  qed
  show ?thesis using run z pos fi1(2) by (intro exI [of _ ?fi3] exI) auto
qed

lemma reflect_index_window:
  assumes "k \<in> set [- 6..6]"
  shows "0 < reflect_index 20 (14 + k) \<and> reflect_index 20 (14 + k) < 20"
proof -
  from assms have "k \<in> {- 6..6}" by (simp only: set_upto)
  then have k: "- 6 \<le> k" "k \<le> 6" by (simp_all only: atLeastAtMost_iff)
  then have "(14 + k) mod 40 = 14 + k" by simp
  then show ?thesis using k by (auto simp: reflect_index_def Let_def)
qed

lemma demo_finalize:
  assumes "length fi = 20" "fi ! 0 = NaN"
    "\<And>j. 0 < j \<Longrightarrow> j < 20 \<Longrightarrow> \<exists>y. fi ! j = Fin y \<and> c \<le> y"
  shows "length (finalize_importance fi) = 20 \<and> finalize_importance fi ! 0 = 0 \<and>
         c \<le> finalize_importance fi ! 14"
proof -
  let ?s = "gaussian_filter1d fi"
  have len: "length ?s = 20" using assms(1) by simp
  have "(0::int) \<in> set [- 6..6]" by simp
  moreover have "fi ! reflect_index (length fi) (int 0 + 0) = NaN"
    using assms(1,2) by (simp add: reflect_index_def)
  ultimately have s0: "?s ! 0 = NaN"
    using assms(1) by (intro gaussian_filter1d_NaN) simp_all
  then have "NaN \<in> set ?s" using len by (metis nth_mem zero_less_numeral)
  then have rs: "rescale_importance ?s = ?s" by (rule rescale_importance_NaN)
  have "\<exists>y. ?s ! 14 = Fin y \<and> c \<le> y"
  proof (rule gaussian_filter1d_lower)
    show "14 < length fi" using assms(1) by simp
  next
    fix k :: int
    assume "k \<in> set [- 6..6]"
    then have "0 < reflect_index 20 (14 + k) \<and> reflect_index 20 (14 + k) < 20"
      by (rule reflect_index_window)
    then show "\<exists>y. fi ! reflect_index (length fi) (int 14 + k) = Fin y \<and> c \<le> y"
      using assms(1,3) by simp
  qed
  then obtain y where y: "?s ! 14 = Fin y" "c \<le> y" by blast
  have f0: "finalize_importance fi ! 0 = 0"
    unfolding finalize_importance_def rs using len s0 by simp
  have f14: "finalize_importance fi ! 14 = y"
    unfolding finalize_importance_def rs using len y(1) by simp
  show ?thesis using f0 f14 y(2) len by (simp add: finalize_importance_def rs)
qed

text \<open>
  Claim C7 fails on the code. A transit region whose \<open>start_index\<close> equals its
  \<open>end_index\<close> has width 0, so the Gaussian weight at its centre is \<open>exp(0/0) = nan\<close>. The
  NaN survives the smoothing, \<open>np.max\<close> of the absolute values is then NaN, the test
  \<open>max_abs > 0\<close> is false and the rescale to 0.6 is skipped; \<open>np.nan_to_num\<close> afterwards
  removes the NaN entries only. On the input below, for every runtime whose standard
  normal draws lie within 5 in absolute value, \<open>explain_prediction\<close> returns an
  explanation whose importance at sample 0 is 0 (the replaced NaN) and whose importance
  at sample 14 exceeds 0.6.
\<close>

theorem single_sample_region_skips_rescale:
  assumes "\<forall>g. \<bar>fst (rng_gauss R g)\<bar> \<le> 5"
  shows "returned (explain_prediction R demo_flux demo_time ''exoplanet'' (9 / 10) demo_regions g)
           (\<lambda>e. length (shap_feature_importance e) = 20 \<and>
                shap_feature_importance e ! 0 = 0 \<and>
                3 / 5 < shap_feature_importance e ! 14)"
proof -
  obtain noise g' where n: "normal R 0 0.01 20 (rng_seed R 42) = (noise, g')"
    by (cases "normal R 0 0.01 20 (rng_seed R 42)")
  have ln: "length noise = 20" using length_normal [of R 0 "0.01" 20 "rng_seed R 42"] n by simp
  have nb: "\<bar>noise ! j\<bar> \<le> 1 / 20" if "j < 20" for j
  proof -
    have "noise ! j \<in> set (fst (normal R 0 0.01 20 (rng_seed R 42)))"
      using that ln n by simp
    then have "\<bar>noise ! j\<bar> \<le> 0.01 * 5"
      by (rule normal_bounded [rotated 2]) (use assms in simp_all)
    then show ?thesis by simp
  qed
  obtain fi pv where fi: "exoplanet_importance demo_flux demo_time (9 / 10) demo_regions
        (map Fin noise) = Inr (fi, pv)"
      "length fi = 20" "fi ! 0 = NaN"
      "\<And>j. 0 < j \<Longrightarrow> j < 20 \<Longrightarrow> \<exists>y. fi ! j = Fin y \<and> noise ! j + 351 / 500 \<le> y"
    using demo_importance [OF ln] by blast
  have low: "\<exists>y. fi ! j = Fin y \<and> 163 / 250 \<le> y" if j: "0 < j" "j < 20" for j
  proof -
    obtain y where y: "fi ! j = Fin y" "noise ! j + 351 / 500 \<le> y" using fi(4) [OF j] by blast
    have "- (1 / 20) \<le> noise ! j" using nb [OF j(2)] by linarith
    then have "163 / 250 \<le> y" using y(2) by linarith
    then show ?thesis using y(1) by blast
  qed
  have fin: "length (finalize_importance fi) = 20 \<and> finalize_importance fi ! 0 = 0 \<and>
         163 / 250 \<le> finalize_importance fi ! 14"
    by (rule demo_finalize [OF fi(2,3) low])
  have "length (finalize_importance fi) \<le> length demo_time" using fin by simp
  then obtain tops where tops: "identify_top_regions (finalize_importance fi) demo_time 5 = Inr tops"
    using identify_top_regions_returns by blast
  have lf: "length demo_flux = 20" by (simp add: demo_flux_def)
  have "fst (explain_prediction R demo_flux demo_time ''exoplanet'' (9 / 10) demo_regions g) =
        Inr \<lparr>shap_feature_importance = finalize_importance fi,
             shap_top_contributing_regions = tops,
             shap_explanation_summary =
               generate_explanation R ''exoplanet'' (9 / 10) tops demo_regions,
             shap_base_value = 0.5,
             shap_predicted_value = nan_to_num 0.5 float_max (- float_max) (np_clip 0.0 1.0 pv)\<rparr>"
    unfolding explain_prediction_def generate_synthetic_shap_def Let_def lf n
    by (simp add: fi(1) tops)
  then show ?thesis using fin by (simp add: returned_def)
qed

text \<open>
  The statement under the quiet runtime.
\<close>

theorem single_sample_region_skips_rescale_witness:
  "(\<forall>g. \<bar>fst (rng_gauss quiet_runtime g)\<bar> \<le> 5) \<and>
   returned (explain_prediction quiet_runtime demo_flux demo_time ''exoplanet'' (9 / 10)
               demo_regions 0)
     (\<lambda>e. length (shap_feature_importance e) = 20 \<and>
          shap_feature_importance e ! 0 = 0 \<and>
          3 / 5 < shap_feature_importance e ! 14)"
proof -
  have h: "\<forall>g. \<bar>fst (rng_gauss quiet_runtime g)\<bar> \<le> 5" by (simp add: quiet_runtime_def)
  show ?thesis using h single_sample_region_skips_rescale [OF h, of 0] by blast
qed

subsection \<open>The rescale on arrays without NaN\<close>

lemma np_gt_trans:
  assumes "a \<noteq> NaN" "b \<noteq> NaN" "c \<noteq> NaN" "\<not> np_gt a b" "\<not> np_gt b c"
  shows "\<not> np_gt a c"
  using assms by (cases a; cases b; cases c) auto

lemma np_maximum_props:
  assumes "a \<noteq> NaN" "b \<noteq> NaN"
  shows "np_maximum a b \<noteq> NaN" "np_maximum a b = a \<or> np_maximum a b = b"
    "\<not> np_gt a (np_maximum a b)" "\<not> np_gt b (np_maximum a b)"
  using assms by (cases a; cases b; auto simp: np_maximum_def)+

lemma fold_np_maximum_props:
  assumes "a \<noteq> NaN" "NaN \<notin> set ys"
  shows "fold np_maximum ys a \<noteq> NaN \<and> fold np_maximum ys a \<in> insert a (set ys) \<and>
         (\<forall>y \<in> insert a (set ys). \<not> np_gt y (fold np_maximum ys a))"
  using assms
proof (induction ys arbitrary: a)
  case Nil
  then show ?case by (cases a) auto
next
  case (Cons y ys)
  let ?a' = "np_maximum y a"
  let ?r = "fold np_maximum ys ?a'"
  have y: "y \<noteq> NaN" "NaN \<notin> set ys" using Cons.prems(2) by auto
  have a': "?a' \<noteq> NaN" "?a' = y \<or> ?a' = a" "\<not> np_gt y ?a'" "\<not> np_gt a ?a'"
    using np_maximum_props [OF y(1) Cons.prems(1)] by auto
  have ih: "?r \<noteq> NaN" "?r \<in> insert ?a' (set ys)" "\<And>z. z \<in> insert ?a' (set ys) \<Longrightarrow> \<not> np_gt z ?r"
    using Cons.IH [OF a'(1) y(2)] by auto
  have "\<not> np_gt ?a' ?r" using ih(3) by simp
  then have "\<not> np_gt y ?r" "\<not> np_gt a ?r"
    using np_gt_trans [OF y(1) a'(1) ih(1) a'(3)] np_gt_trans [OF Cons.prems(1) a'(1) ih(1) a'(4)]
    by auto
  then show ?case using ih a'(2) by auto
qed

lemma np_amax_props:
  assumes "xs \<noteq> []" "NaN \<notin> set xs"
  shows "np_amax xs \<noteq> NaN \<and> np_amax xs \<in> set xs \<and> (\<forall>y \<in> set xs. \<not> np_gt y (np_amax xs))"
proof -
  obtain x ys where xs: "xs = x # ys" using assms(1) by (cases xs) auto
  then have "x \<noteq> NaN" "NaN \<notin> set ys" using assms(2) by auto
  then show ?thesis using fold_np_maximum_props [of x ys] xs by (simp add: np_amax_def)
qed

lemma np_abs_NaN_iff [simp]: "np_abs x = NaN \<longleftrightarrow> x = NaN"
  by (cases x) simp_all

lemma NaN_np_abs_iff [simp]: "NaN = np_abs x \<longleftrightarrow> x = NaN"
  by (cases x) simp_all

lemma rescaled_entry_bound:
  assumes "x \<noteq> NaN" "m \<noteq> NaN" "\<not> np_gt (np_abs x) m"
  shows "\<bar>nan_to_num 0 (3 / 5) (- (3 / 5))
            (if np_gt m (Fin 0) then np_mul (np_div x m) (Fin (3 / 5)) else x)\<bar> \<le> 3 / 5"
proof (cases m)
  case (Fin r)
  then obtain v where v: "x = Fin v" "\<bar>v\<bar> \<le> r" using assms by (cases x) auto
  show ?thesis
  proof (cases "0 < r")
    case True
    have "\<bar>v / r\<bar> = \<bar>v\<bar> / r" using True by simp
    then have "\<bar>v / r\<bar> \<le> 1" using v(2) True by (simp add: pos_divide_le_eq)
    then have "\<bar>v / r * (3 / 5)\<bar> \<le> 3 / 5" by (simp add: abs_mult)
    then show ?thesis using Fin v True by simp
  next
    case False
    then show ?thesis using Fin v by simp
  qed
next
  case PInf
  then show ?thesis using assms by (cases x) simp_all
next
  case NInf
  then show ?thesis using assms by (cases x) simp_all
next
  case NaN
  then show ?thesis using assms by simp
qed

text \<open>
  The part of claim C7 that holds: when the smoothed array holds no NaN, every entry of
  the final importance array is at most 0.6 in absolute value.
\<close>

lemma finalize_importance_bounded:
  assumes "fi \<noteq> []" "NaN \<notin> set (gaussian_filter1d fi)"
  shows "\<forall>x \<in> set (finalize_importance fi). \<bar>x\<bar> \<le> 3 / 5"
proof
  fix x assume "x \<in> set (finalize_importance fi)"
  let ?s = "gaussian_filter1d fi"
  let ?m = "np_amax (map np_abs ?s)"
  have ne: "map np_abs ?s \<noteq> []" using assms(1) by (simp add: gaussian_filter1d_def)
  have nn: "NaN \<notin> set (map np_abs ?s)" using assms(2) by auto
  have m: "?m \<noteq> NaN" "\<And>y. y \<in> set ?s \<Longrightarrow> \<not> np_gt (np_abs y) ?m"
    using np_amax_props [OF ne nn] by auto
  have "finalize_importance fi =
        map (\<lambda>y. nan_to_num 0 (3 / 5) (- (3 / 5))
                   (if np_gt ?m (Fin 0) then np_mul (np_div y ?m) (Fin (3 / 5)) else y)) ?s"
    by (simp add: finalize_importance_def rescale_importance_def Let_def)
  then obtain y where y: "y \<in> set ?s"
      "x = nan_to_num 0 (3 / 5) (- (3 / 5))
             (if np_gt ?m (Fin 0) then np_mul (np_div y ?m) (Fin (3 / 5)) else y)"
    using \<open>x \<in> set (finalize_importance fi)\<close> by auto
  have "y \<noteq> NaN" using y(1) assms(2) by auto
  then show "\<bar>x\<bar> \<le> 3 / 5"
    unfolding y(2) by (rule rescaled_entry_bound [OF _ m(1) m(2) [OF y(1)]])
qed

subsection \<open>The engine returns on well-formed light curves\<close>

lemma length_convolve_same:
  assumes "a \<noteq> []" "v \<noteq> []"
  shows "length (convolve_same a v) = max (length a) (length v)"
proof -
  define n w d where "n = length a" and "w = length v" and "d = (min n w - 1) div 2"
  have pos: "0 < n" "0 < w" using assms by (simp_all add: n_def w_def)
  have "length (convolve_same a v) = min (max n w) (n + w - 1 - d)"
    by (simp add: convolve_same_def convolve_full_def n_def w_def d_def min.commute)
  moreover have "d \<le> min n w - 1" by (simp add: d_def)
  then have "max n w \<le> n + w - 1 - d" using pos by (cases "n \<le> w") simp_all
  ultimately show ?thesis by (simp add: n_def w_def)
qed

lemma region_weights_in_range:
  assumes "0 \<le> start_index r" "start_index r \<le> end_index r" "end_index r < int (length time_array)"
  shows "\<exists>c w. region_weights time_array r = Inr (gaussian_weights time_array c w)"
proof -
  have "0 \<le> (start_index r + end_index r) div 2"
    "(start_index r + end_index r) div 2 < int (length time_array)"
    using assms by linarith+
  then have "region_weights time_array r =
      Inr (gaussian_weights time_array (time_array ! nat ((start_index r + end_index r) div 2))
             (real_of_int (end_index r - start_index r) * 1.5))"
    by (simp add: region_weights_def np_index_def Let_def)
  then show ?thesis by blast
qed

lemma exoplanet_regions_returns:
  assumes "length fi = length time_array"
    "list_all (\<lambda>r. 0 \<le> start_index r \<and> start_index r \<le> end_index r \<and>
                     end_index r < int (length time_array)) regs"
  shows "\<exists>fi'. exoplanet_regions time_array confidence i regs fi = Inr fi' \<and>
               length fi' = length time_array"
  using assms
proof (induction regs arbitrary: i fi)
  case Nil
  then show ?case by simp
next
  case (Cons r regs)
  obtain c w where rw: "region_weights time_array r = Inr (gaussian_weights time_array c w)"
    using region_weights_in_range [of r time_array] Cons.prems(2) by auto
  let ?b = "map (\<lambda>w. np_mul w (Fin (min (depth r * 600 * confidence) 0.8 * 0.9 ^ i)))
              (gaussian_weights time_array c w)"
  have ip: "inplace np_add fi ?b = Inr (map2 np_add fi ?b)"
    by (rule inplace_same_length) (simp add: Cons.prems(1))
  have "length (map2 np_add fi ?b) = length time_array" using Cons.prems(1) by simp
  then have "\<exists>fi'. exoplanet_regions time_array confidence (Suc i) regs (map2 np_add fi ?b) = Inr fi' \<and>
               length fi' = length time_array"
    using Cons.IH Cons.prems(2) by simp
  then show ?case using rw ip by (simp add: Let_def)
qed

lemma no_planet_regions_returns:
  assumes "length fi = length time_array"
    "list_all (\<lambda>r. 0 \<le> start_index r \<and> start_index r \<le> end_index r \<and>
                     end_index r < int (length time_array)) regs"
  shows "\<exists>fi'. no_planet_regions time_array confidence regs fi = Inr fi' \<and>
               length fi' = length time_array"
  using assms
proof (induction regs arbitrary: fi)
  case Nil
  then show ?case by simp
next
  case (Cons r regs)
  obtain c w where rw: "region_weights time_array r = Inr (gaussian_weights time_array c w)"
    using region_weights_in_range [of r time_array] Cons.prems(2) by auto
  let ?b = "map (\<lambda>w. np_mul (np_mul w (Fin 0.2)) (Fin confidence))
              (gaussian_weights time_array c w)"
  have ip: "inplace np_sub fi ?b = Inr (map2 np_sub fi ?b)"
    by (rule inplace_same_length) (simp add: Cons.prems(1))
  have "length (map2 np_sub fi ?b) = length time_array" using Cons.prems(1) by simp
  then have "\<exists>fi'. no_planet_regions time_array confidence regs (map2 np_sub fi ?b) = Inr fi' \<and>
               length fi' = length time_array"
    using Cons.IH Cons.prems(2) by simp
  then show ?case using rw ip by simp
qed

lemma exoplanet_importance_returns:
  assumes "flux \<noteq> []" "length time_array = length flux" "length fi = length flux"
    "list_all (\<lambda>r. 0 \<le> start_index r \<and> start_index r \<le> end_index r \<and>
                     end_index r < int (length flux)) regs"
  shows "\<exists>fi' pv. exoplanet_importance flux time_array confidence regs fi = Inr (fi', pv) \<and>
               length fi' = length flux"
proof -
  obtain fi1 where fi1: "exoplanet_regions time_array confidence 0 regs fi = Inr fi1"
      "length fi1 = length time_array"
    using exoplanet_regions_returns [of fi time_array regs confidence 0] assms by auto
  show ?thesis
    using assms(1,2) fi1 by (simp add: exoplanet_importance_def Let_def)
qed

lemma length_smoothed_variance:
  assumes "3 \<le> length flux"
  shows "length (smoothed_variance flux) = length flux"
proof -
  define fv where "fv = map (\<lambda>f. \<bar>f - mean flux\<bar>) flux"
  define nv where "nv = (if 1 / 10 ^ 10 < amax fv then map (\<lambda>v. v / amax fv) fv
                         else replicate (length flux) 0)"
  define w where "w = max 3 (length flux div 50)"
  have lnv: "length nv = length flux" by (simp add: nv_def fv_def)
  have "nv \<noteq> []" using assms lnv by auto
  moreover have "replicate w (1 / real w) \<noteq> []" by (simp add: w_def)
  ultimately have "length (convolve_same nv (replicate w (1 / real w))) =
                   max (length nv) (length (replicate w (1 / real w)))"
    by (rule length_convolve_same)
  also have "\<dots> = length flux" using assms by (simp add: lnv w_def)
  finally have "length (convolve_same nv (replicate w (1 / real w))) = length flux" .
  moreover have "smoothed_variance flux = convolve_same nv (replicate w (1 / real w))"
    by (simp only: smoothed_variance_def Let_def nv_def fv_def w_def)
  ultimately show ?thesis by simp
qed

lemma no_planet_importance_returns:
  assumes "3 \<le> length flux" "length time_array = length flux" "length fi = length flux"
    "list_all (\<lambda>r. 0 \<le> start_index r \<and> start_index r \<le> end_index r \<and>
                     end_index r < int (length flux)) regs"
  shows "\<exists>fi' pv. no_planet_importance flux time_array confidence regs fi = Inr (fi', pv) \<and>
               length fi' = length flux"
proof -
  have ne: "flux \<noteq> []" using assms(1) by auto
  let ?b = "map (\<lambda>s. Fin (s * 0.4 * confidence)) (smoothed_variance flux)"
  have lb: "length ?b = length fi" using length_smoothed_variance [OF assms(1)] assms(3) by simp
  have ip: "inplace np_add fi ?b = Inr (map2 np_add fi ?b)"
    by (rule inplace_same_length [OF lb])
  have "length (map2 np_add fi ?b) = length time_array" using lb assms(2,3) by simp
  then obtain fi2 where fi2: "no_planet_regions time_array confidence regs (map2 np_add fi ?b) = Inr fi2"
      "length fi2 = length time_array"
    using no_planet_regions_returns [of "map2 np_add fi ?b" time_array regs confidence] assms(2,4)
    by auto
  show ?thesis
    unfolding no_planet_importance_def Let_def ip
    using ne fi2 assms(2) by simp
qed

lemma length_finalize_importance [simp]:
  "length (finalize_importance fi) = length fi"
  by (simp add: finalize_importance_def rescale_importance_def Let_def)

text \<open>
  On a well-formed light curve the explanation engine returns, with one importance
  value per sample.
\<close>

lemma explain_prediction_returns:
  assumes "3 \<le> length flux" "length time_array = length flux"
    "list_all (\<lambda>r. 0 \<le> start_index r \<and> start_index r \<le> end_index r \<and>
                     end_index r < int (length flux)) regs"
  shows "\<exists>e g'. explain_prediction R flux time_array classification confidence regs g =
                  (Inr e, g') \<and> length (shap_feature_importance e) = length flux"
proof -
  obtain noise g' where n: "normal R 0 0.01 (length flux) (rng_seed R 42) = (noise, g')"
    by (cases "normal R 0 0.01 (length flux) (rng_seed R 42)")
  have ln: "length (map Fin noise) = length flux"
    using length_normal [of R 0 "0.01" "length flux" "rng_seed R 42"] n by simp
  have ne: "flux \<noteq> []" using assms(1) by auto
  have "\<exists>fi pv. (if classification = ''exoplanet''
                  then exoplanet_importance flux time_array confidence regs (map Fin noise)
                  else no_planet_importance flux time_array confidence regs (map Fin noise)) =
                 Inr (fi, pv) \<and> length fi = length flux"
    using exoplanet_importance_returns [OF ne assms(2) ln assms(3)]
      no_planet_importance_returns [OF assms(1) assms(2) ln assms(3)]
    by simp
  then obtain fi pv where fi: "(if classification = ''exoplanet''
                  then exoplanet_importance flux time_array confidence regs (map Fin noise)
                  else no_planet_importance flux time_array confidence regs (map Fin noise)) =
                 Inr (fi, pv)" "length fi = length flux"
    by blast
  have "length (finalize_importance fi) \<le> length time_array" using fi(2) assms(2) by simp
  then obtain tops where tops: "identify_top_regions (finalize_importance fi) time_array 5 = Inr tops"
    using identify_top_regions_returns by blast
  show ?thesis
    unfolding explain_prediction_def generate_synthetic_shap_def Let_def n
    using fi tops by simp
qed

lemma confirmed_well_formed:
  assumes "3 \<le> num_points" "period_days \<noteq> 0"
    and d: "effective_depth transit_depth planet_radius_earth = Inr d"
  shows "\<exists>lc g'. generate_confirmed_planet R period_days transit_depth transit_duration
                   num_points planet_radius_earth g = (Inr lc, g') \<and> well_formed_curve lc"
proof -
  have n: "0 \<le> num_points" using assms(1) by simp
  let ?w = "min 0.04 (transit_duration / (period_days * 24))"
  let ?time = "linspace 0 30 (nat num_points)"
  let ?flux = "map2 (+) (replicate (nat num_points) 1) (fst (normal R 0 0.0005 (nat num_points) g))"
  have "region_inv (dip_at period_days ?w ?time) (\<lambda>i. depth_factor period_days d ?w (?time ! i))
          (length ?time)
          (region_trace (dip_at period_days ?w ?time)
             (\<lambda>i. depth_factor period_days d ?w (?time ! i)) (length ?time))"
    by (rule region_trace_inv)
  then have "regions_characterised (dip_at period_days ?w ?time)
          (\<lambda>i. depth_factor period_days d ?w (?time ! i)) (nat num_points)
          (snd (transit_loop period_days d ?w ?time ?flux))"
    using region_inv_characterised by (simp add: transit_loop_regions length_linspace)
  then have "list_all (\<lambda>r. 0 \<le> start_index r \<and> start_index r \<le> end_index r \<and>
                     end_index r < int (nat num_points))
               (snd (transit_loop period_days d ?w ?time ?flux))"
    by (simp add: regions_characterised_def)
  moreover have "length (fst (transit_loop period_days d ?w ?time ?flux)) = nat num_points"
    by (simp add: length_transit_loop length_normal)
  ultimately have "well_formed_curve (?time, fst (transit_loop period_days d ?w ?time ?flux),
                     snd (transit_loop period_days d ?w ?time ?flux))"
    using assms(1) by (simp add: well_formed_curve_def length_linspace case_prod_beta)
  then show ?thesis
    unfolding generate_confirmed_planet_unfold [OF d n assms(2)] by blast
qed

lemma candidate_well_formed:
  assumes "3 \<le> num_points"
  shows "\<exists>lc g'. generate_candidate R num_points g = (Inr lc, g') \<and> well_formed_curve lc"
  using assms
  by (simp add: generate_candidate_def Let_def case_prod_beta well_formed_curve_def
        length_candidate_fold length_normal length_linspace)

lemma false_positive_well_formed:
  assumes "3 \<le> num_points"
  shows "\<exists>lc g'. generate_false_positive R num_points a g = (Inr lc, g') \<and> well_formed_curve lc"
  using assms
  by (simp add: generate_false_positive_def Let_def case_prod_beta well_formed_curve_def
        length_eclipse_dip length_normal length_linspace)

lemma resolver_value_range:
  "0 \<le> snd (resolver_value truth h) \<and> snd (resolver_value truth h) \<le> 1"
proof -
  have r: "0 \<le> real_of_int (h mod m) \<and> real_of_int (h mod m) \<le> real_of_int (m - 1)"
    if "0 < m" for m h :: int
  proof -
    have "0 \<le> h mod m" "h mod m \<le> m - 1" using that by simp_all
    then show ?thesis by linarith
  qed
  show ?thesis
    using r [of 8 h] r [of 12 h] r [of 20 "h mod 100"] r [of 15 "h mod 100"]
    by (simp add: resolver_value_def)
qed

lemma synthesize_cases:
  "(\<exists>e g'. synthesize R s g = (Inl e, g') \<and> (e = ZeroDivisionError \<or> e = OverflowError) \<and>
         s_truth s = ''confirmed'') \<or>
   (\<exists>lc g'. synthesize R s g = (Inr (lc, resolver_value (s_truth s) (py_hash R (s_id s))), g') \<and>
         well_formed_curve lc)"
proof (cases "s_truth s = ''confirmed''")
  case True
  let ?p = "case param_period_days (s_params s) of None \<Rightarrow> 10 | Some p \<Rightarrow> p"
  let ?td = "case param_transit_depth (s_params s) of None \<Rightarrow> 0.01 | Some d \<Rightarrow> d"
  let ?gen = "generate_confirmed_planet R ?p ?td
      (case param_transit_duration (s_params s) of None \<Rightarrow> 3 | Some t \<Rightarrow> t)
      1000 (param_planet_radius (s_params s)) g"
  have err: ?thesis if "?gen = (Inl e, g')" "e = ZeroDivisionError \<or> e = OverflowError" for e g'
  proof -
    have "synthesize R s g = (Inl e, g')"
      unfolding synthesize_def Let_def using True that(1) by simp
    then show ?thesis using True that(2) by blast
  qed
  consider (overflow) "effective_depth ?td (param_planet_radius (s_params s)) = Inl OverflowError"
    | (depth) d where "effective_depth ?td (param_planet_radius (s_params s)) = Inr d"
    using effective_depth_cases by blast
  then show ?thesis
  proof cases
    case overflow
    then have "?gen = (Inl OverflowError, g)" by (rule confirmed_depth_error)
    then show ?thesis using err by blast
  next
    case depth
    show ?thesis
    proof (cases "?p = 0")
      case p: True
      have n: "(0::int) \<le> 1000" by simp
      have "fst ?gen = Inl ZeroDivisionError"
        unfolding p by (rule confirmed_zero_period [OF n depth])
      then obtain g' where "?gen = (Inl ZeroDivisionError, g')" by (cases ?gen) simp
      then show ?thesis using err by blast
    next
      case p0: False
      have k: "(3::int) \<le> 1000" by simp
      obtain lc g' where gen: "?gen = (Inr lc, g')" "well_formed_curve lc"
        using confirmed_well_formed [OF k p0 depth, where R = R and g = g
            and transit_duration =
              "case param_transit_duration (s_params s) of None \<Rightarrow> 3 | Some t \<Rightarrow> t"]
        by (simp del: split_paired_Ex) blast
      then have "synthesize R s g =
          (Inr (lc, resolver_value (s_truth s) (py_hash R (s_id s))), g')"
        unfolding synthesize_def Let_def using True by (simp add: resolver_value_def)
      then show ?thesis using gen(2) by blast
    qed
  qed
next
  case nc: False
  show ?thesis
  proof (cases "s_truth s = ''candidate''")
    case True
    obtain lc g' where gen: "generate_candidate R 1000 g = (Inr lc, g')" "well_formed_curve lc"
      using candidate_well_formed [of 1000 R g] by (simp del: split_paired_Ex) blast
    then have "synthesize R s g =
        (Inr (lc, resolver_value (s_truth s) (py_hash R (s_id s))), g')"
      unfolding synthesize_def Let_def using True by (simp add: resolver_value_def)
    then show ?thesis using gen(2) by blast
  next
    case False
    obtain lc g' where gen: "generate_false_positive R 1000
        (case param_anomaly_type (s_params s) of None \<Rightarrow> ''noise'' | Some a \<Rightarrow> a) g = (Inr lc, g')"
        "well_formed_curve lc"
      using false_positive_well_formed [of 1000 R
          "case param_anomaly_type (s_params s) of None \<Rightarrow> ''noise'' | Some a \<Rightarrow> a" g]
      by (simp del: split_paired_Ex) blast
    then have "synthesize R s g =
        (Inr (lc, resolver_value (s_truth s) (py_hash R (s_id s))), g')"
      unfolding synthesize_def Let_def using nc False by (simp add: resolver_value_def)
    then show ?thesis using gen(2) by blast
  qed
qed

subsection \<open>Top regions\<close>

lemma sort_key_example:
  "sort [1/10, 3/5, 1/10, 1/10, 1/10, 1/10, 1/10, 1/10, 1/10, 1/2, 3/5 :: real] =
   [1/10, 1/10, 1/10, 1/10, 1/10, 1/10, 1/10, 1/10, 1/2, 3/5, 3/5]"
  by simp

lemma percentile_example:
  "percentile [1/10, 3/5, 1/10, 1/10, 1/10, 1/10, 1/10, 1/10, 1/10, 1/2, 3/5] 80 = 1/2"
  unfolding percentile_def sort_key_example
  by (simp add: Let_def)

text \<open>
  Claim C8 fails on the code. The scan closes a run only at the first sample below the
  threshold that follows it, so a run that reaches the last sample is never recorded.
  On the input below the 80th percentile of the absolute importance is 0.5 and two
  runs exceed it: sample 1 and sample 10, the last one. Only the first becomes a
  region.
\<close>

theorem trailing_run_dropped:
  "identify_top_regions [0.1, 0.6, 0.1, 0.1, 0.1, 0.1, 0.1, 0.1, 0.1, 0.5, 0.6]
     [0, 1, 2, 3, 4, 5, 6, 7, 8, 9, 10] 5 =
   Inr [\<lparr>start_time = 1, end_time = 1, importance = 0.6, contribution_percent = 60\<rparr>]"
proof -
  have p: "percentile (map abs [0.1, 0.6, 0.1, 0.1, 0.1, 0.1, 0.1, 0.1, 0.1, 0.5, 0.6]) 80 = 1/2"
    using percentile_example by simp
  show ?thesis
    unfolding identify_top_regions_def Let_def p
    by (simp add: enumerate_eq_zip region_scan_step_def py_index_def mean_def upt_rec)
qed

subsection \<open>Lookup failure\<close>

lemma predict_synthetic_cases:
  "(\<exists>e g'. predict_synthetic R s g = (Inl e, g') \<and> (e = ZeroDivisionError \<or> e = OverflowError) \<and>
         s_truth s = ''confirmed'') \<or>
   (\<exists>result g'. predict_synthetic R s g = (Inr result, g') \<and>
         (resp_classification result, confidence_score result) =
           resolver_value (s_truth s) (py_hash R (s_id s)))"
proof -
  consider
    (err) e g' where "synthesize R s g = (Inl e, g')" "e = ZeroDivisionError \<or> e = OverflowError"
      "s_truth s = ''confirmed''"
  | (ok) lc g' where
      "synthesize R s g = (Inr (lc, resolver_value (s_truth s) (py_hash R (s_id s))), g')"
      "well_formed_curve lc"
    using synthesize_cases [of R s g] by blast
  then show ?thesis
  proof cases
    case err
    then have "predict_synthetic R s g = (Inl e, g')"
      by (simp add: predict_synthetic_def)
    then show ?thesis using err by blast
  next
    case ok
    obtain time flux regs where lc: "lc = (time, flux, regs)" by (cases lc)
    obtain cls conf where rv: "resolver_value (s_truth s) (py_hash R (s_id s)) = (cls, conf)"
      by (cases "resolver_value (s_truth s) (py_hash R (s_id s))")
    have wf: "3 \<le> length flux" "length time = length flux"
      "list_all (\<lambda>r. 0 \<le> start_index r \<and> start_index r \<le> end_index r \<and>
                     end_index r < int (length flux)) regs"
      using ok(2) lc by (simp_all add: well_formed_curve_def)
    obtain e g'' where e: "explain_prediction R flux time cls conf regs g' = (Inr e, g'')"
      using explain_prediction_returns [OF wf, of R cls conf g'] by blast
    have "\<exists>result. predict_synthetic R s g = (Inr result, g'') \<and>
            resp_classification result = cls \<and> confidence_score result = conf"
      unfolding predict_synthetic_def ok(1) lc rv by (simp add: e Let_def)
    then show ?thesis using rv by auto
  qed
qed

text \<open>
  For an identifier of the catalog \<open>predict\<close> returns a response, unless the entry is a
  confirmed planet for which the generator raises: ZeroDivisionError for a period of 0,
  OverflowError for a radius whose squared ratio is beyond the double range.
\<close>

lemma predict_found:
  assumes "find (\<lambda>s. s_id s = sample_id) samples_db = Some s"
  shows "(\<exists>e g'. predict R elapsed samples_db sample_id g = (Inl e, g') \<and>
                 (e = ZeroDivisionError \<or> e = OverflowError)) \<or>
         (\<exists>response g'. predict R elapsed samples_db sample_id g = (Inr response, g'))"
proof -
  consider
    (err) e g' where "predict_synthetic R s g = (Inl e, g')"
      "e = ZeroDivisionError \<or> e = OverflowError"
  | (ok) result g' where "predict_synthetic R s g = (Inr result, g')"
      "(resp_classification result, confidence_score result) =
         resolver_value (s_truth s) (py_hash R (s_id s))"
    using predict_synthetic_cases [of R s g] by blast
  then show ?thesis
  proof cases
    case err
    then show ?thesis using assms by (simp add: predict_def)
  next
    case ok
    have "confidence_score result = snd (resolver_value (s_truth s) (py_hash R (s_id s)))"
      using ok(2) by (metis snd_conv)
    then have "0 \<le> confidence_score result \<and> confidence_score result \<le> 1"
      using resolver_value_range by simp
    then show ?thesis using assms ok(1) by (simp add: predict_def Let_def)
  qed
qed

text \<open>
  Claim C9. When no catalog entry has the requested identifier, \<open>predict\<close> raises the
  ValueError of the lookup, which the route turns into status 404 with the same
  message; no response is produced, and the generator state is the one the call
  started with: no light curve was generated and nothing was reseeded. The error is
  distinct: when a catalog entry has the identifier, \<open>predict\<close> raises no ValueError and
  the route answers with no status 404.
\<close>

theorem unknown_sample_not_found:
  "((\<forall>s \<in> set samples_db. s_id s \<noteq> sample_id) \<longrightarrow>
      predict R elapsed samples_db sample_id g =
        (Inl (ValueError (''Sample '' @ sample_id @ '' not found'')), g) \<and>
      predict_exoplanet R elapsed samples_db sample_id g =
        (Inl (HTTPException 404 (''Sample '' @ sample_id @ '' not found'')), g)) \<and>
   ((\<exists>s \<in> set samples_db. s_id s = sample_id) \<longrightarrow>
      (\<forall>m. fst (predict R elapsed samples_db sample_id g) \<noteq> Inl (ValueError m)) \<and>
      (\<forall>m. fst (predict_exoplanet R elapsed samples_db sample_id g) \<noteq>
             Inl (HTTPException 404 m)))"
proof (intro conjI impI)
  assume a: "\<forall>s \<in> set samples_db. s_id s \<noteq> sample_id"
  then have "find (\<lambda>s. s_id s = sample_id) samples_db = None"
    by (simp add: find_None_iff)
  then show p: "predict R elapsed samples_db sample_id g =
           (Inl (ValueError (''Sample '' @ sample_id @ '' not found'')), g)"
    by (simp add: predict_def)
  then show "predict_exoplanet R elapsed samples_db sample_id g =
        (Inl (HTTPException 404 (''Sample '' @ sample_id @ '' not found'')), g)"
    by (simp add: predict_exoplanet_def)
next
  assume "\<exists>s \<in> set samples_db. s_id s = sample_id"
  then have "find (\<lambda>s. s_id s = sample_id) samples_db \<noteq> None"
    by (auto simp: find_None_iff)
  then obtain s where s: "find (\<lambda>s. s_id s = sample_id) samples_db = Some s" by blast
  consider (err) e g' where "predict R elapsed samples_db sample_id g = (Inl e, g')"
      "e = ZeroDivisionError \<or> e = OverflowError"
    | (ok) response g' where "predict R elapsed samples_db sample_id g = (Inr response, g')"
    using predict_found [OF s, of R elapsed g] by blast
  then have "(\<forall>m. fst (predict R elapsed samples_db sample_id g) \<noteq> Inl (ValueError m)) \<and>
      (\<forall>m. fst (predict_exoplanet R elapsed samples_db sample_id g) \<noteq>
             Inl (HTTPException 404 m))"
    by cases (auto simp: predict_exoplanet_def)
  then show "\<forall>m. fst (predict R elapsed samples_db sample_id g) \<noteq> Inl (ValueError m)"
    and "\<forall>m. fst (predict_exoplanet R elapsed samples_db sample_id g) \<noteq>
             Inl (HTTPException 404 m)"
    by simp_all
qed

text \<open>
  The statement at a catalog of three samples, for an identifier that is none of theirs
  and for one of theirs.
\<close>

theorem unknown_sample_not_found_witness:
  "s_id kepler_186f \<noteq> ''koi-9999'' \<and> s_id eb_001 \<noteq> ''koi-9999'' \<and>
   s_id koi_5123 \<noteq> ''koi-9999'' \<and>
   predict quiet_runtime 0.002 [kepler_186f, eb_001, koi_5123] ''koi-9999'' 0 =
     (Inl (ValueError ''Sample koi-9999 not found''), 0) \<and>
   predict_exoplanet quiet_runtime 0.002 [kepler_186f, eb_001, koi_5123] ''koi-9999'' 0 =
     (Inl (HTTPException 404 ''Sample koi-9999 not found''), 0) \<and>
   s_id eb_001 = ''eb-001'' \<and>
   (\<forall>m. fst (predict quiet_runtime 0.002 [kepler_186f, eb_001, koi_5123] ''eb-001'' 0) \<noteq>
          Inl (ValueError m)) \<and>
   (\<forall>m. fst (predict_exoplanet quiet_runtime 0.002 [kepler_186f, eb_001, koi_5123] ''eb-001'' 0) \<noteq>
          Inl (HTTPException 404 m))"
proof -
  have h: "\<forall>s \<in> set [kepler_186f, eb_001, koi_5123]. s_id s \<noteq> ''koi-9999''"
    by (simp add: kepler_186f_def eb_001_def koi_5123_def)
  have e: "s_id eb_001 = ''eb-001''" by (simp add: eb_001_def)
  then have k: "\<exists>s \<in> set [kepler_186f, eb_001, koi_5123]. s_id s = ''eb-001''" by simp
  have 1: "predict quiet_runtime 0.002 [kepler_186f, eb_001, koi_5123] ''koi-9999'' 0 =
     (Inl (ValueError ''Sample koi-9999 not found''), 0) \<and>
   predict_exoplanet quiet_runtime 0.002 [kepler_186f, eb_001, koi_5123] ''koi-9999'' 0 =
     (Inl (HTTPException 404 ''Sample koi-9999 not found''), 0)"
    using h unknown_sample_not_found
      [of "[kepler_186f, eb_001, koi_5123]" "''koi-9999''" quiet_runtime "0.002" 0]
    by simp
  have 2: "(\<forall>m. fst (predict quiet_runtime 0.002 [kepler_186f, eb_001, koi_5123] ''eb-001'' 0) \<noteq>
          Inl (ValueError m)) \<and>
   (\<forall>m. fst (predict_exoplanet quiet_runtime 0.002 [kepler_186f, eb_001, koi_5123] ''eb-001'' 0) \<noteq>
          Inl (HTTPException 404 m))"
    using k unknown_sample_not_found
      [of "[kepler_186f, eb_001, koi_5123]" "''eb-001''" quiet_runtime "0.002" 0]
    by blast
  show ?thesis using h e 1 2 by simp
qed

end
